theory Spec2Isabelle
  imports Main "HOL-Library.Monad_Syntax"
begin

section \<open>Request values\<close>

text \<open>
  The handlers of \<^verbatim>\<open>server.js\<close> read identifiers from the JSON request body and from
  the route, and pass every one of them through \<^verbatim>\<open>parseInt\<close>. A body value is a JSON
  scalar; a field that is absent from the body (\<^verbatim>\<open>undefined\<close> after destructuring) is
  \<open>None\<close>. \<open>JNum n\<close> stands for an integer-valued JSON number of magnitude below
  \<open>10^21\<close>, whose \<^verbatim>\<open>String\<close> is its plain decimal numeral. Array-valued fields
  (\<^verbatim>\<open>tagIds\<close>, \<^verbatim>\<open>notes\<close>, \<^verbatim>\<open>dependencies\<close>, ...) are lists of scalars.
  Strict equality \<^verbatim>\<open>===\<close> (and the \<^verbatim>\<open>SameValueZero\<close> of \<^verbatim>\<open>Array.prototype.includes\<close>)
  on these values is equality of \<open>jsval\<close>: a string never equals a number.
\<close>

datatype jsval = JNull | JBool bool | JNum int | JStr string

fun truthy :: "jsval \<Rightarrow> bool" where
  "truthy JNull = False"
| "truthy (JBool b) = b"
| "truthy (JNum n) = (n \<noteq> 0)"
| "truthy (JStr s) = (s \<noteq> [])"

definition truthy_opt :: "jsval option \<Rightarrow> bool" where
  "truthy_opt v = (case v of None \<Rightarrow> False | Some x \<Rightarrow> truthy x)"

subsection \<open>\<^verbatim>\<open>parseInt\<close> with no radix argument\<close>

definition isWhiteSpace :: "char \<Rightarrow> bool" where
  "isWhiteSpace c = (c \<in> set [CHR 0x09, CHR 0x0A, CHR 0x0B, CHR 0x0C, CHR 0x0D, CHR 0x20])"

definition digitValue :: "char \<Rightarrow> nat option" where
  "digitValue c = map_of
     [(CHR ''0'', 0), (CHR ''1'', 1), (CHR ''2'', 2), (CHR ''3'', 3), (CHR ''4'', 4),
      (CHR ''5'', 5), (CHR ''6'', 6), (CHR ''7'', 7), (CHR ''8'', 8), (CHR ''9'', 9),
      (CHR ''a'', 10), (CHR ''b'', 11), (CHR ''c'', 12), (CHR ''d'', 13), (CHR ''e'', 14),
      (CHR ''f'', 15), (CHR ''A'', 10), (CHR ''B'', 11), (CHR ''C'', 12), (CHR ''D'', 13),
      (CHR ''E'', 14), (CHR ''F'', 15)] c"

definition radixDigit :: "nat \<Rightarrow> char \<Rightarrow> bool" where
  "radixDigit R c = (case digitValue c of None \<Rightarrow> False | Some d \<Rightarrow> d < R)"

definition digitsValue :: "nat \<Rightarrow> string \<Rightarrow> nat" where
  "digitsValue R Z =
     foldl (\<lambda>acc c. acc * R + (case digitValue c of None \<Rightarrow> 0 | Some d \<Rightarrow> d)) 0 Z"

text \<open>
  The steps of the language's \<^verbatim>\<open>parseInt(string)\<close>: leading white space is dropped, a
  sign is read, a \<^verbatim>\<open>0x\<close> prefix selects radix 16, the longest prefix of digits is the
  value, and no digit at all is \<^verbatim>\<open>NaN\<close> (\<open>None\<close>). Whatever follows the digits is
  ignored.
\<close>

definition parseInt_str :: "string \<Rightarrow> int option" where
  "parseInt_str inputString =
     (let S = dropWhile isWhiteSpace inputString;
          sign = (if take 1 S = ''-'' then - 1 else (1::int));
          S1 = (if take 1 S = ''+'' \<or> take 1 S = ''-'' then drop 1 S else S);
          hex = (take 2 S1 = ''0x'' \<or> take 2 S1 = ''0X'');
          S2 = (if hex then drop 2 S1 else S1);
          R = (if hex then 16 else 10);
          Z = takeWhile (radixDigit R) S2
      in if Z = [] then None else Some (sign * int (digitsValue R Z)))"

fun parseInt :: "jsval \<Rightarrow> int option" where
  "parseInt (JStr s) = parseInt_str s"
| "parseInt (JNum n) = Some n"
| "parseInt (JBool b) = None"
| "parseInt JNull = None"

text \<open>
  \<^verbatim>\<open>ids.map(id => parseInt(id))\<close>, handed to a query. \<^verbatim>\<open>NaN\<close> reaches the query layer
  as \<^verbatim>\<open>null\<close>. Every identifier of these lists is a primary key or part of one, a column
  that is not nullable, and the query layer refuses \<^verbatim>\<open>null\<close> for it: one unparsable
  element makes the whole call throw. For a nullable column (\<^verbatim>\<open>categoryId\<close>,
  \<^verbatim>\<open>userId\<close> of a todo) \<^verbatim>\<open>null\<close> is a value like any other.
\<close>

fun parseInts :: "jsval list \<Rightarrow> int list option" where
  "parseInts [] = Some []"
| "parseInts (v # vs) =
     (case parseInt v of
        None \<Rightarrow> None
      | Some n \<Rightarrow> (case parseInts vs of None \<Rightarrow> None | Some ns \<Rightarrow> Some (n # ns)))"

section \<open>The store\<close>

text \<open>
  The tables of \<^verbatim>\<open>prisma/schema.prisma\<close> and of the migration that creates them. Rows
  are kept in insertion order. Of users, categories and tags only the primary keys are
  kept. A pair \<open>(a, b)\<close> of \<open>todoDependencies\<close> is a row of the implicit join table of
  the relation \<^verbatim>\<open>TodoDependencies\<close>: todo \<open>a\<close> has todo \<open>b\<close> among its
  \<^verbatim>\<open>dependencies\<close>, and \<open>a\<close> is among the \<^verbatim>\<open>dependencyOf\<close> of \<open>b\<close>.
  The three counters are the sequences behind the \<^verbatim>\<open>SERIAL\<close> keys that the handlers
  insert into. Time stamps are integers (milliseconds).
\<close>

datatype Priority = LOW | MEDIUM | HIGH | URGENT

record Todo =
  tid :: int
  title :: string
  description :: "string option"
  completed :: bool
  priority :: Priority
  createdAt :: int
  updatedAt :: int
  userId :: "int option"
  categoryId :: "int option"

record TagsOnTodos =
  todoId :: int
  tagId :: int
  assignedAt :: int

record Note =
  note_id :: int
  content :: string
  note_todoId :: int
  note_createdAt :: int

record TodoHistory =
  hist_id :: int
  hist_todoId :: int
  action :: string
  hist_description :: string
  hist_createdAt :: int

record Attachment =
  att_id :: int
  filename :: string
  filepath :: string
  mimeType :: string
  att_todoId :: int

record db =
  todos :: "Todo list"
  users :: "int list"
  categories :: "int list"
  tags :: "int list"
  tagsOnTodos :: "TagsOnTodos list"
  notes_tbl :: "Note list"
  todoHistory :: "TodoHistory list"
  attachments :: "Attachment list"
  todoDependencies :: "(int \<times> int) list"
  todos_id_seq :: int
  notes_id_seq :: int
  todo_history_id_seq :: int

subsection \<open>Queries\<close>

definition todo_findUnique :: "db \<Rightarrow> int \<Rightarrow> Todo option" where
  "todo_findUnique s i = find (\<lambda>t. tid t = i) (todos s)"

definition todo_count :: "db \<Rightarrow> (Todo \<Rightarrow> bool) \<Rightarrow> nat" where
  "todo_count s P = length (filter P (todos s))"

text \<open>\<^verbatim>\<open>include: { dependencies }\<close> of the todo \<open>i\<close>: the todos it depends on.\<close>

definition include_dependencies :: "db \<Rightarrow> int \<Rightarrow> Todo list" where
  "include_dependencies s i = filter (\<lambda>d. (i, tid d) \<in> set (todoDependencies s)) (todos s)"

text \<open>\<^verbatim>\<open>where: { dependencies: { some: { id } } }\<close>: the todos that depend on \<open>i\<close>.\<close>

definition todosThatDependOn :: "db \<Rightarrow> int \<Rightarrow> Todo list" where
  "todosThatDependOn s i = filter (\<lambda>t. (tid t, i) \<in> set (todoDependencies s)) (todos s)"

subsection \<open>Writes\<close>

text \<open>
  A write that the query layer or the database refuses throws, which is \<open>None\<close> here.
  \<^verbatim>\<open>todo.update\<close> throws when no row has the id, and returns the row it wrote. \<open>f\<close>
  is what the call writes to the row. The \<^verbatim>\<open>@updatedAt\<close> column is set by the query
  layer when the data of the call write a scalar field, and left alone when they are
  empty or hold only a \<^verbatim>\<open>connect\<close> or \<^verbatim>\<open>disconnect\<close>; the callers below say which.
\<close>

definition todo_update :: "db \<Rightarrow> int \<Rightarrow> (Todo \<Rightarrow> Todo) \<Rightarrow> (Todo \<times> db) option" where
  "todo_update s i f =
     (case todo_findUnique s i of
        None \<Rightarrow> None
      | Some t \<Rightarrow> Some (f t, s\<lparr>todos := map (\<lambda>r. if tid r = i then f r else r) (todos s)\<rparr>))"

text \<open>
  \<^verbatim>\<open>todoHistory.create\<close>: the key comes from the sequence; the insert fails on a
  foreign key that names no todo and on a primary key that is already taken.
\<close>

definition todoHistory_create :: "db \<Rightarrow> int \<Rightarrow> int \<Rightarrow> string \<Rightarrow> string \<Rightarrow> db option" where
  "todoHistory_create s now i act descr =
     (if todo_findUnique s i = None then None
      else if todo_history_id_seq s \<in> set (map hist_id (todoHistory s)) then None
      else Some (s\<lparr>todoHistory := todoHistory s @
                     [\<lparr>hist_id = todo_history_id_seq s, hist_todoId = i, action = act,
                       hist_description = descr, hist_createdAt = now\<rparr>],
                   todo_history_id_seq := todo_history_id_seq s + 1\<rparr>))"


text \<open>
  \<^verbatim>\<open>connect\<close> on the implicit many-to-many relation: it throws when one of the named
  todos does not exist; a pair that is already in the join table is not inserted again.
\<close>

definition connect_dependencies :: "db \<Rightarrow> int \<Rightarrow> int list \<Rightarrow> db option" where
  "connect_dependencies s i ds =
     (if list_all (\<lambda>d. todo_findUnique s d \<noteq> None) ds
      then Some (s\<lparr>todoDependencies := todoDependencies s @
                    remdups (filter (\<lambda>e. e \<notin> set (todoDependencies s)) (map (Pair i) ds))\<rparr>)
      else None)"

definition disconnect_dependencies :: "db \<Rightarrow> int \<Rightarrow> int list \<Rightarrow> db" where
  "disconnect_dependencies s i ds =
     s\<lparr>todoDependencies := filter (\<lambda>e. \<not> (fst e = i \<and> snd e \<in> set ds)) (todoDependencies s)\<rparr>"

text \<open>
  \<^verbatim>\<open>todo.create\<close>: the key comes from the sequence, \<^verbatim>\<open>completed\<close> takes the schema's
  default \<^verbatim>\<open>false\<close>, both time stamps are the current time. The insert fails on a
  user or category that does not exist and on a key that is taken; the nested
  \<^verbatim>\<open>connect\<close> runs after the insert.
\<close>

definition todo_create ::
  "db \<Rightarrow> int \<Rightarrow> string \<Rightarrow> string option \<Rightarrow> Priority \<Rightarrow> int option \<Rightarrow> int option \<Rightarrow> int list
     \<Rightarrow> (Todo \<times> db) option" where
  "todo_create s now ttl descr prio uid cid deps =
     (if (case uid of None \<Rightarrow> False | Some u \<Rightarrow> u \<notin> set (users s)) then None
      else if (case cid of None \<Rightarrow> False | Some c \<Rightarrow> c \<notin> set (categories s)) then None
      else if todos_id_seq s \<in> set (map tid (todos s)) then None
      else
        (let todo = \<lparr>tid = todos_id_seq s, title = ttl, description = descr, completed = False,
                     priority = prio, createdAt = now, updatedAt = now, userId = uid,
                     categoryId = cid\<rparr>;
             s1 = s\<lparr>todos := todos s @ [todo], todos_id_seq := todos_id_seq s + 1\<rparr>
         in case connect_dependencies s1 (tid todo) deps of
              None \<Rightarrow> None
            | Some s2 \<Rightarrow> Some (todo, s2)))"

text \<open>
  \<^verbatim>\<open>tagsOnTodos.create\<close>: both foreign keys must exist and the composite key
  \<^verbatim>\<open>(todoId, tagId)\<close> must be free.
\<close>

definition tagsOnTodos_create :: "db \<Rightarrow> int \<Rightarrow> int \<Rightarrow> int \<Rightarrow> db option" where
  "tagsOnTodos_create s now i g =
     (if todo_findUnique s i = None then None
      else if g \<notin> set (tags s) then None
      else if (i, g) \<in> set (map (\<lambda>r. (todoId r, tagId r)) (tagsOnTodos s)) then None
      else Some (s\<lparr>tagsOnTodos := tagsOnTodos s @ [\<lparr>todoId = i, tagId = g, assignedAt = now\<rparr>]\<rparr>))"

definition tagsOnTodos_deleteMany :: "db \<Rightarrow> int \<Rightarrow> int list \<Rightarrow> db" where
  "tagsOnTodos_deleteMany s i gs =
     s\<lparr>tagsOnTodos := filter (\<lambda>r. \<not> (todoId r = i \<and> tagId r \<in> set gs)) (tagsOnTodos s)\<rparr>"

text \<open>\<^verbatim>\<open>where: { todoId: id }, select: { tagId: true }\<close> on the join table.\<close>

definition tagIdsOf :: "db \<Rightarrow> int \<Rightarrow> int list" where
  "tagIdsOf s i = map tagId (filter (\<lambda>r. todoId r = i) (tagsOnTodos s))"

definition note_create :: "db \<Rightarrow> int \<Rightarrow> int \<Rightarrow> string \<Rightarrow> db option" where
  "note_create s now i c =
     (if todo_findUnique s i = None then None
      else if notes_id_seq s \<in> set (map note_id (notes_tbl s)) then None
      else Some (s\<lparr>notes_tbl := notes_tbl s @
                     [\<lparr>note_id = notes_id_seq s, content = c, note_todoId = i,
                       note_createdAt = now\<rparr>],
                   notes_id_seq := notes_id_seq s + 1\<rparr>))"

definition note_deleteMany :: "db \<Rightarrow> int list \<Rightarrow> db" where
  "note_deleteMany s ns = s\<lparr>notes_tbl := filter (\<lambda>n. note_id n \<notin> set ns) (notes_tbl s)\<rparr>"

text \<open>
  \<^verbatim>\<open>todo.delete\<close>: it throws when no row has the id. The foreign keys of the migration
  are all \<^verbatim>\<open>ON DELETE CASCADE\<close> towards \<^verbatim>\<open>todos\<close>: the join rows of the todo, its
  notes, history rows and attachments, and the rows of \<^verbatim>\<open>_TodoDependencies\<close> that
  name it in either column go with it.
\<close>

definition todo_delete :: "db \<Rightarrow> int \<Rightarrow> db option" where
  "todo_delete s i =
     (if todo_findUnique s i = None then None
      else Some (s\<lparr>todos := filter (\<lambda>t. tid t \<noteq> i) (todos s),
                   tagsOnTodos := filter (\<lambda>r. todoId r \<noteq> i) (tagsOnTodos s),
                   notes_tbl := filter (\<lambda>n. note_todoId n \<noteq> i) (notes_tbl s),
                   todoHistory := filter (\<lambda>h. hist_todoId h \<noteq> i) (todoHistory s),
                   attachments := filter (\<lambda>a. att_todoId a \<noteq> i) (attachments s),
                   todoDependencies :=
                     filter (\<lambda>e. fst e \<noteq> i \<and> snd e \<noteq> i) (todoDependencies s)\<rparr>))"

text \<open>A \<^verbatim>\<open>for ... of\<close> loop of writes: the first one that throws ends it.\<close>

fun forEach :: "('a \<Rightarrow> db \<Rightarrow> db option) \<Rightarrow> 'a list \<Rightarrow> db \<Rightarrow> db option" where
  "forEach f [] s = Some s"
| "forEach f (x # xs) s = (case f x s of None \<Rightarrow> None | Some s' \<Rightarrow> forEach f xs s')"

subsection \<open>Arguments the query layer accepts\<close>

text \<open>
  The query layer checks every argument against the column's type before it sends
  anything to the database, and throws on a mismatch: a \<^verbatim>\<open>String\<close> column takes a
  string, a \<^verbatim>\<open>String?\<close> column a string or \<^verbatim>\<open>null\<close>, a \<^verbatim>\<open>Boolean\<close> column a
  boolean, the \<^verbatim>\<open>Priority\<close> column one of the four names of the enum.
\<close>

fun arg_String :: "jsval \<Rightarrow> string option" where
  "arg_String (JStr x) = Some x"
| "arg_String v = None"

fun arg_String_nullable :: "jsval \<Rightarrow> string option option" where
  "arg_String_nullable (JStr x) = Some (Some x)"
| "arg_String_nullable JNull = Some None"
| "arg_String_nullable v = None"

fun arg_Boolean :: "jsval \<Rightarrow> bool option" where
  "arg_Boolean (JBool b) = Some b"
| "arg_Boolean v = None"

definition priority_of_string :: "string \<Rightarrow> Priority option" where
  "priority_of_string x =
     map_of [(''LOW'', LOW), (''MEDIUM'', MEDIUM), (''HIGH'', HIGH), (''URGENT'', URGENT)] x"

fun priority_name :: "Priority \<Rightarrow> string" where
  "priority_name LOW = ''LOW''"
| "priority_name MEDIUM = ''MEDIUM''"
| "priority_name HIGH = ''HIGH''"
| "priority_name URGENT = ''URGENT''"

fun arg_Priority :: "jsval \<Rightarrow> Priority option" where
  "arg_Priority (JStr x) = priority_of_string x"
| "arg_Priority v = None"

section \<open>Responses\<close>

text \<open>
  \<open>Error c m\<close> is \<^verbatim>\<open>res.status(c).json({ error: m })\<close>. Of the successful responses
  the model keeps the todo rows and the identifiers of their relations:
  \<^item> \<open>Listed data total currentPage limit\<close> for the list,
  \<^item> \<open>Created todo tags dependencies\<close> for the create (status 201),
  \<^item> \<open>Updated todo tags dependencies changedFields\<close> for the update,
  \<^item> \<open>Deleted id dependentTodos\<close> for the delete,
  \<^item> \<open>Toggled todo uncompletedDependencies dependentTodosCount blockedTodos\<close> for
    the toggle.
  The statistics of the answers (counts, rates, ages, \<^verbatim>\<open>totalPages\<close>) are computed from
  reads and from arithmetic that does not throw; they are left out, and so are the
  reads that only feed them.
\<close>

datatype response =
    Error nat string
  | Listed "Todo list" nat int int
  | Created Todo "int list" "int list"
  | Updated Todo "int list" "int list" "string list"
  | Deleted int "int list"
  | Toggled Todo "int list" nat "int list"

fun status :: "response \<Rightarrow> nat" where
  "status (Error c m) = c"
| "status (Created t ts ds) = 201"
| "status r = 200"

section \<open>\<^verbatim>\<open>PATCH /api/todos/:id/toggle\<close>\<close>

definition toggle_transaction :: "db \<Rightarrow> int \<Rightarrow> int \<Rightarrow> Todo \<Rightarrow> (Todo \<times> db) option" where
  "toggle_transaction s now i existingTodo =
     (let newCompletionStatus = \<not> completed existingTodo in
      case todo_update s i (\<lambda>t. t\<lparr>completed := newCompletionStatus, updatedAt := now\<rparr>) of
        None \<Rightarrow> None
      | Some (todo, s1) \<Rightarrow>
          (case todoHistory_create s1 now i
                  (if newCompletionStatus then ''COMPLETED'' else ''REOPENED'')
                  (if newCompletionStatus then ''Todo was marked as completed''
                   else ''Todo was reopened'') of
             None \<Rightarrow> None
           | Some s2 \<Rightarrow> Some (todo, s2)))"

text \<open>
  The handler: the route parameter \<open>idp\<close> is parsed, the todo is looked up (404 when
  absent), the warning list of step 2 and the dependency counts of steps 7 and 8 are
  read, and the flip and its history row are written in one transaction (step 10).
  \<open>now\<close> is the time of the request. An exception anywhere is answered with 500 by
  the handler's \<^verbatim>\<open>catch\<close> (a route parameter that does not parse makes the lookup
  throw), and a transaction that throws leaves the tables as they were; the model
  restores the sequence counters as well.
\<close>

definition patch_toggle :: "db \<Rightarrow> int \<Rightarrow> string \<Rightarrow> response \<times> db" where
  "patch_toggle s now idp =
     (case parseInt_str idp of
        None \<Rightarrow> (Error 500 ''Failed to toggle todo'', s)
      | Some i \<Rightarrow>
          (case todo_findUnique s i of
             None \<Rightarrow> (Error 404 ''Todo not found'', s)
           | Some existingTodo \<Rightarrow>
               (let uncompletedDependencies =
                      (if \<not> completed existingTodo
                       then filter (\<lambda>d. \<not> completed d) (include_dependencies s i) else []);
                    dependentTodosCount = length (todosThatDependOn s i);
                    blockedTodos =
                      filter (\<lambda>t. \<not> list_ex (\<lambda>d. tid d \<noteq> i \<and> \<not> completed d)
                                       (include_dependencies s (tid t)))
                        (todosThatDependOn s i)
                in case toggle_transaction s now i existingTodo of
                     None \<Rightarrow> (Error 500 ''Failed to toggle todo'', s)
                   | Some (result, s') \<Rightarrow>
                       (Toggled result (map tid uncompletedDependencies) dependentTodosCount
                          (if completed result then map tid blockedTodos else []), s'))))"

section \<open>Request bodies and their validation\<close>

text \<open>
  The body of \<^verbatim>\<open>POST /api/todos\<close> and of \<^verbatim>\<open>PUT /api/todos/:id\<close>. Each handler
  destructures the fields it knows and ignores the others: the create handler never
  reads \<^verbatim>\<open>completed\<close> or the three \<^verbatim>\<open>remove...\<close> lists.
\<close>

record body =
  b_title :: "jsval option"
  b_description :: "jsval option"
  b_completed :: "jsval option"
  b_priority :: "jsval option"
  b_categoryId :: "jsval option"
  b_userId :: "jsval option"
  b_tagIds :: "jsval list option"
  b_notes :: "jsval list option"
  b_dependencies :: "jsval list option"
  b_removeTags :: "jsval list option"
  b_removeNotes :: "jsval list option"
  b_removeDependencies :: "jsval list option"

text \<open>
  \<^verbatim>\<open>tagIds = []\<close> in the destructuring pattern, and equally the guard
  \<^verbatim>\<open>tagIds && tagIds.length > 0\<close>: an absent list counts as the empty one.
\<close>

definition orEmpty :: "'a list option \<Rightarrow> 'a list" where
  "orEmpty xs = (case xs of None \<Rightarrow> [] | Some l \<Rightarrow> l)"

text \<open>
  The outcome of one validation step: it lets the request pass, rejects it with a
  message (answered with status 400), or throws (answered with 500 by the
  \<^verbatim>\<open>catch\<close> of the handler). \<open>checks\<close> runs steps in order up to the first that
  does not pass.
\<close>

datatype check = Pass | Reject string | Throw

fun checks :: "check list \<Rightarrow> check" where
  "checks [] = Pass"
| "checks (c # cs) = (case c of Pass \<Rightarrow> checks cs | Reject m \<Rightarrow> Reject m | Throw \<Rightarrow> Throw)"

text \<open>
  Steps 1 and 2 of the create handler, 2 and 3 of the update handler: a category or
  user that is truthy is looked up by its parsed key. The key is not nullable, so an
  unparsable one makes the lookup throw.
\<close>

definition validate_category :: "db \<Rightarrow> jsval option \<Rightarrow> check" where
  "validate_category s categoryId' =
     (case categoryId' of
        None \<Rightarrow> Pass
      | Some v \<Rightarrow>
          if \<not> truthy v then Pass
          else (case parseInt v of
                  None \<Rightarrow> Throw
                | Some c \<Rightarrow> if c \<in> set (categories s) then Pass else Reject ''Category not found''))"

definition validate_user :: "db \<Rightarrow> jsval option \<Rightarrow> check" where
  "validate_user s userId' =
     (case userId' of
        None \<Rightarrow> Pass
      | Some v \<Rightarrow>
          if \<not> truthy v then Pass
          else (case parseInt v of
                  None \<Rightarrow> Throw
                | Some u \<Rightarrow> if u \<in> set (users s) then Pass else Reject ''User not found''))"

text \<open>
  \<^verbatim>\<open>count({ where: { id: { in: ids.map(id => parseInt(id)) } } })\<close> compared with
  \<^verbatim>\<open>ids.length\<close>, for the tags and for the dependencies. \<open>keys\<close> are the primary keys
  of the table.
\<close>

definition validate_ids :: "int list \<Rightarrow> jsval list \<Rightarrow> string \<Rightarrow> check" where
  "validate_ids keys ids msg =
     (if ids = [] then Pass
      else (case parseInts ids of
              None \<Rightarrow> Throw
            | Some ns \<Rightarrow>
                if length (filter (\<lambda>k. k \<in> set ns) keys) \<noteq> length ids then Reject msg
                else Pass))"

text \<open>
  Step 7 of the update handler. The first test is \<^verbatim>\<open>dependencies.includes(id)\<close> with
  the numeric \<open>id\<close> of the route: it compares the elements of the body as they are.
  The second test parses each element and looks it up among the todos that depend on
  this one.
\<close>

definition check_circular :: "db \<Rightarrow> int \<Rightarrow> jsval list \<Rightarrow> check" where
  "check_circular s i dependencies =
     (if dependencies = [] then Pass
      else if JNum i \<in> set dependencies then Reject ''A todo cannot depend on itself''
      else
        (let dependentIds = map tid (todosThatDependOn s i);
             hasCircularDep =
               list_ex (\<lambda>depId. case parseInt depId of
                                   None \<Rightarrow> False
                                 | Some d \<Rightarrow> d \<in> set dependentIds) dependencies
         in if hasCircularDep then Reject ''Circular dependency detected'' else Pass))"

definition validate_removeNotes :: "db \<Rightarrow> int \<Rightarrow> jsval list \<Rightarrow> check" where
  "validate_removeNotes s i removeNotes =
     (if removeNotes = [] then Pass
      else (case parseInts removeNotes of
              None \<Rightarrow> Throw
            | Some ns \<Rightarrow>
                if length (filter (\<lambda>n. note_id n \<in> set ns \<and> note_todoId n = i) (notes_tbl s))
                     \<noteq> length removeNotes
                then Reject ''Some notes to remove not found''
                else Pass))"

text \<open>\<^verbatim>\<open>v || d\<close> for a field \<open>v\<close> of the body.\<close>

definition orElse :: "jsval option \<Rightarrow> jsval \<Rightarrow> jsval" where
  "orElse v d = (case v of None \<Rightarrow> d | Some x \<Rightarrow> if truthy x then x else d)"

text \<open>
  \<^verbatim>\<open>v ? parseInt(v) : null\<close> for the nullable columns \<^verbatim>\<open>userId\<close> and \<^verbatim>\<open>categoryId\<close>:
  \<open>None\<close> is \<^verbatim>\<open>null\<close>, and \<^verbatim>\<open>NaN\<close> arrives as \<^verbatim>\<open>null\<close> too.
\<close>

definition parseInt_or_null :: "jsval option \<Rightarrow> int option" where
  "parseInt_or_null v =
     (case v of None \<Rightarrow> None | Some x \<Rightarrow> if truthy x then parseInt x else None)"

section \<open>\<^verbatim>\<open>POST /api/todos\<close>\<close>

text \<open>
  Steps 1 to 8 of the handler. The title must be truthy; the category, the user, the
  tags and the dependencies must exist. The count of step 7 filters on
  \<^verbatim>\<open>priority || 'MEDIUM'\<close> and throws when that is no name of the enum. There is no
  dependency check beyond existence here.
\<close>

definition post_validate :: "db \<Rightarrow> body \<Rightarrow> check" where
  "post_validate s b =
     (if \<not> truthy_opt (b_title b) then Reject ''Title is required''
      else checks
        [validate_category s (b_categoryId b),
         validate_user s (b_userId b),
         validate_ids (tags s) (orEmpty (b_tagIds b)) ''Some tags not found'',
         validate_ids (map tid (todos s)) (orEmpty (b_dependencies b))
           ''Some dependencies not found'',
         (case arg_Priority (orElse (b_priority b) (JStr ''MEDIUM'')) of
            None \<Rightarrow> Throw
          | Some p \<Rightarrow> Pass)])"

text \<open>
  Step 9, the transaction: the todo with its dependency edges, one join row per tag,
  one note per content, and the \<^verbatim>\<open>CREATED\<close> history row. The data of the todo are
  \<^verbatim>\<open>title\<close>, \<^verbatim>\<open>description || null\<close>, \<^verbatim>\<open>priority || 'MEDIUM'\<close>, and the parsed user and
  category or \<^verbatim>\<open>null\<close>; \<^verbatim>\<open>completed\<close> is not among them.
\<close>

definition post_transaction :: "db \<Rightarrow> int \<Rightarrow> body \<Rightarrow> (Todo \<times> db) option" where
  "post_transaction s now b = do {
     titlev \<leftarrow> b_title b;
     ttl \<leftarrow> arg_String titlev;
     descr \<leftarrow> arg_String_nullable (orElse (b_description b) JNull);
     prio \<leftarrow> arg_Priority (orElse (b_priority b) (JStr ''MEDIUM''));
     deps \<leftarrow> parseInts (orEmpty (b_dependencies b));
     (todo, s1) \<leftarrow> todo_create s now ttl descr prio (parseInt_or_null (b_userId b))
                    (parseInt_or_null (b_categoryId b)) deps;
     s2 \<leftarrow> forEach (\<lambda>tagId' s'. case parseInt tagId' of
                                   None \<Rightarrow> None
                                 | Some g \<Rightarrow> tagsOnTodos_create s' now (tid todo) g)
             (orEmpty (b_tagIds b)) s1;
     s3 \<leftarrow> forEach (\<lambda>noteContent s'. case arg_String noteContent of
                                        None \<Rightarrow> None
                                      | Some c \<Rightarrow> note_create s' now (tid todo) c)
             (orEmpty (b_notes b)) s2;
     s4 \<leftarrow> todoHistory_create s3 now (tid todo) ''CREATED'' ''Todo was created'';
     Some (todo, s4)
   }"

text \<open>
  The handler. After the transaction it reads the todo back with its relations and
  answers 201. \<open>now\<close> is the time of the request.
\<close>

definition post_todos :: "db \<Rightarrow> int \<Rightarrow> body \<Rightarrow> response \<times> db" where
  "post_todos s now b =
     (case post_validate s b of
        Reject m \<Rightarrow> (Error 400 m, s)
      | Throw \<Rightarrow> (Error 500 ''Failed to create todo'', s)
      | Pass \<Rightarrow>
          (case post_transaction s now b of
             None \<Rightarrow> (Error 500 ''Failed to create todo'', s)
           | Some (result, s') \<Rightarrow>
               (case todo_findUnique s' (tid result) of
                  None \<Rightarrow> (Error 500 ''Failed to create todo'', s')
                | Some createdTodo \<Rightarrow>
                    (Created createdTodo (tagIdsOf s' (tid result))
                       (map tid (include_dependencies s' (tid result))), s'))))"

section \<open>\<^verbatim>\<open>PUT /api/todos/:id\<close>\<close>

text \<open>Step 4: the names of the fields that the request changes, for the history row.\<close>

definition differs :: "jsval option \<Rightarrow> jsval \<Rightarrow> bool" where
  "differs v old = (case v of None \<Rightarrow> False | Some x \<Rightarrow> x \<noteq> old)"

definition js_of_int_option :: "int option \<Rightarrow> jsval" where
  "js_of_int_option v = (case v of None \<Rightarrow> JNull | Some n \<Rightarrow> JNum n)"

definition js_of_string_option :: "string option \<Rightarrow> jsval" where
  "js_of_string_option v = (case v of None \<Rightarrow> JNull | Some x \<Rightarrow> JStr x)"

definition changes :: "Todo \<Rightarrow> body \<Rightarrow> string list" where
  "changes existingTodo b =
     (if differs (b_title b) (JStr (title existingTodo)) then [''title''] else []) @
     (if differs (b_description b) (js_of_string_option (description existingTodo))
      then [''description''] else []) @
     (if differs (b_completed b) (JBool (completed existingTodo)) then [''completed''] else []) @
     (if differs (b_priority b) (JStr (priority_name (priority existingTodo)))
      then [''priority''] else []) @
     (if differs (b_categoryId b) (js_of_int_option (categoryId existingTodo))
      then [''category''] else []) @
     (if differs (b_userId b) (js_of_int_option (userId existingTodo)) then [''user''] else []) @
     (if orEmpty (b_tagIds b) \<noteq> [] then [''tags''] else []) @
     (if orEmpty (b_notes b) \<noteq> [] then [''notes''] else []) @
     (if orEmpty (b_dependencies b) \<noteq> [] then [''dependencies''] else [])"

fun join :: "string \<Rightarrow> string list \<Rightarrow> string" where
  "join sep [] = []"
| "join sep [x] = x"
| "join sep (x # y # ys) = x @ sep @ join sep (y # ys)"

text \<open>Steps 2, 3 and 5 to 8, in the order of the handler.\<close>

definition put_validate :: "db \<Rightarrow> int \<Rightarrow> body \<Rightarrow> check" where
  "put_validate s i b =
     checks
       [validate_category s (b_categoryId b),
        validate_user s (b_userId b),
        validate_ids (tags s) (orEmpty (b_tagIds b)) ''Some tags not found'',
        validate_ids (map tid (todos s)) (orEmpty (b_dependencies b))
          ''Some dependencies not found'',
        check_circular s i (orEmpty (b_dependencies b)),
        validate_removeNotes s i (orEmpty (b_removeNotes b))]"

text \<open>
  The data of the first \<^verbatim>\<open>tx.todo.update\<close>:
  \<^verbatim>\<open>title: title !== undefined ? title : undefined\<close> and so on. A field that is
  \<^verbatim>\<open>undefined\<close> is not part of the update (\<open>None\<close> in the record below). A
  \<^verbatim>\<open>title\<close>, \<^verbatim>\<open>description\<close>, \<^verbatim>\<open>completed\<close> or \<^verbatim>\<open>priority\<close> that is present
  must be a value the column takes. A \<^verbatim>\<open>categoryId\<close> or \<^verbatim>\<open>userId\<close> that is present
  is parsed, and \<^verbatim>\<open>NaN\<close> is written as \<^verbatim>\<open>null\<close> (\<open>Some None\<close>).
\<close>

record todo_data =
  d_title :: "string option"
  d_description :: "string option option"
  d_completed :: "bool option"
  d_priority :: "Priority option"
  d_categoryId :: "int option option"
  d_userId :: "int option option"

definition field :: "(jsval \<Rightarrow> 'a option) \<Rightarrow> jsval option \<Rightarrow> 'a option option" where
  "field conv v = (case v of None \<Rightarrow> Some None | Some x \<Rightarrow> map_option Some (conv x))"

definition update_data :: "body \<Rightarrow> todo_data option" where
  "update_data b = do {
     ttl \<leftarrow> field arg_String (b_title b);
     descr \<leftarrow> field arg_String_nullable (b_description b);
     compl \<leftarrow> field arg_Boolean (b_completed b);
     prio \<leftarrow> field arg_Priority (b_priority b);
     Some \<lparr>d_title = ttl, d_description = descr, d_completed = compl, d_priority = prio,
           d_categoryId = map_option parseInt (b_categoryId b),
           d_userId = map_option parseInt (b_userId b)\<rparr>
   }"

text \<open>The data write a scalar field when one of the six is present.\<close>

definition writes_scalar :: "todo_data \<Rightarrow> bool" where
  "writes_scalar d =
     (\<not> (d_title d = None \<and> d_description d = None \<and> d_completed d = None \<and>
         d_priority d = None \<and> d_categoryId d = None \<and> d_userId d = None))"

definition apply_data :: "int \<Rightarrow> todo_data \<Rightarrow> Todo \<Rightarrow> Todo" where
  "apply_data now d t =
     t\<lparr>title := (case d_title d of None \<Rightarrow> title t | Some x \<Rightarrow> x),
       description := (case d_description d of None \<Rightarrow> description t | Some x \<Rightarrow> x),
       completed := (case d_completed d of None \<Rightarrow> completed t | Some x \<Rightarrow> x),
       priority := (case d_priority d of None \<Rightarrow> priority t | Some x \<Rightarrow> x),
       categoryId := (case d_categoryId d of None \<Rightarrow> categoryId t | Some c \<Rightarrow> c),
       userId := (case d_userId d of None \<Rightarrow> userId t | Some u \<Rightarrow> u),
       updatedAt := (if writes_scalar d then now else updatedAt t)\<rparr>"

text \<open>The update of the row; a category or user that does not exist violates its foreign key.\<close>

definition todo_update_data :: "db \<Rightarrow> int \<Rightarrow> int \<Rightarrow> todo_data \<Rightarrow> (Todo \<times> db) option" where
  "todo_update_data s now i d =
     (if (case d_categoryId d of Some (Some c) \<Rightarrow> c \<notin> set (categories s) | _ \<Rightarrow> False) then None
      else if (case d_userId d of Some (Some u) \<Rightarrow> u \<notin> set (users s) | _ \<Rightarrow> False) then None
      else todo_update s i (apply_data now d))"

text \<open>The steps of the transaction that follow the update of the row, one definition each.\<close>

definition put_remove_tags :: "db \<Rightarrow> int \<Rightarrow> jsval list \<Rightarrow> db option" where
  "put_remove_tags s i removeTags =
     (if removeTags \<noteq> [] then map_option (tagsOnTodos_deleteMany s i) (parseInts removeTags)
      else Some s)"

definition put_add_tags :: "db \<Rightarrow> int \<Rightarrow> int \<Rightarrow> jsval list \<Rightarrow> db option" where
  "put_add_tags s now i tagIds =
     (if tagIds \<noteq> [] then
        (let existingTagIds = tagIdsOf s i
         in forEach (\<lambda>tagId' s'. case parseInt tagId' of
                                    None \<Rightarrow> None
                                  | Some parsedId \<Rightarrow>
                                      if parsedId \<in> set existingTagIds then Some s'
                                      else tagsOnTodos_create s' now i parsedId)
              tagIds s)
      else Some s)"

definition put_add_notes :: "db \<Rightarrow> int \<Rightarrow> int \<Rightarrow> jsval list \<Rightarrow> db option" where
  "put_add_notes s now i notes' =
     (if notes' \<noteq> [] then
        forEach (\<lambda>noteContent s'. case arg_String noteContent of
                                     None \<Rightarrow> None
                                   | Some c \<Rightarrow> note_create s' now i c)
          notes' s
      else Some s)"

definition put_remove_notes :: "db \<Rightarrow> jsval list \<Rightarrow> db option" where
  "put_remove_notes s removeNotes =
     (if removeNotes \<noteq> [] then map_option (note_deleteMany s) (parseInts removeNotes)
      else Some s)"

text \<open>
  The two calls of \<^verbatim>\<open>tx.todo.update\<close> for the dependencies hold only a \<^verbatim>\<open>connect\<close> or
  a \<^verbatim>\<open>disconnect\<close>: the row is looked up, the call throws without it, and it is left
  as it is.
\<close>

definition put_add_dependencies :: "db \<Rightarrow> int \<Rightarrow> jsval list \<Rightarrow> db option" where
  "put_add_dependencies s i dependencies =
     (if dependencies \<noteq> [] then do {
        ds \<leftarrow> parseInts dependencies;
        (todo, s') \<leftarrow> todo_update s i (\<lambda>t. t);
        connect_dependencies s' i ds
      }
      else Some s)"

definition put_remove_dependencies :: "db \<Rightarrow> int \<Rightarrow> jsval list \<Rightarrow> db option" where
  "put_remove_dependencies s i removeDependencies =
     (if removeDependencies \<noteq> [] then do {
        ds \<leftarrow> parseInts removeDependencies;
        (todo, s') \<leftarrow> todo_update s i (\<lambda>t. t);
        Some (disconnect_dependencies s' i ds)
      }
      else Some s)"

text \<open>Step 9: the whole transaction.\<close>

definition put_transaction :: "db \<Rightarrow> int \<Rightarrow> int \<Rightarrow> body \<Rightarrow> string list \<Rightarrow> (Todo \<times> db) option" where
  "put_transaction s now i b changed = do {
     d \<leftarrow> update_data b;
     (todo, s1) \<leftarrow> todo_update_data s now i d;
     s2 \<leftarrow> put_remove_tags s1 i (orEmpty (b_removeTags b));
     s3 \<leftarrow> put_add_tags s2 now i (orEmpty (b_tagIds b));
     s4 \<leftarrow> put_add_notes s3 now i (orEmpty (b_notes b));
     s5 \<leftarrow> put_remove_notes s4 (orEmpty (b_removeNotes b));
     s6 \<leftarrow> put_add_dependencies s5 i (orEmpty (b_dependencies b));
     s7 \<leftarrow> put_remove_dependencies s6 i (orEmpty (b_removeDependencies b));
     s8 \<leftarrow> todoHistory_create s7 now i ''UPDATED'' (''Updated fields: '' @ join '', '' changed);
     Some (todo, s8)
   }"

text \<open>
  The handler: the route parameter is parsed, the todo is looked up (404), the request
  is validated, the transaction runs, and the todo is read back for the answer.
\<close>

definition put_todo :: "db \<Rightarrow> int \<Rightarrow> string \<Rightarrow> body \<Rightarrow> response \<times> db" where
  "put_todo s now idp b =
     (case parseInt_str idp of
        None \<Rightarrow> (Error 500 ''Failed to update todo'', s)
      | Some i \<Rightarrow>
          (case todo_findUnique s i of
             None \<Rightarrow> (Error 404 ''Todo not found'', s)
           | Some existingTodo \<Rightarrow>
               (case put_validate s i b of
                  Reject m \<Rightarrow> (Error 400 m, s)
                | Throw \<Rightarrow> (Error 500 ''Failed to update todo'', s)
                | Pass \<Rightarrow>
                    (case put_transaction s now i b (changes existingTodo b) of
                       None \<Rightarrow> (Error 500 ''Failed to update todo'', s)
                     | Some (result, s') \<Rightarrow>
                         (case todo_findUnique s' i of
                            None \<Rightarrow> (Error 500 ''Failed to update todo'', s')
                          | Some updatedTodo \<Rightarrow>
                              (Updated updatedTodo (tagIdsOf s' i)
                                 (map tid (include_dependencies s' i))
                                 (changes existingTodo b), s'))))))"

section \<open>\<^verbatim>\<open>DELETE /api/todos/:id\<close>\<close>

text \<open>
  The handler looks the todo up (404), lists the todos that depend on it for the
  answer, and deletes the row in a transaction; the cascade is the database's.
\<close>

definition delete_todo :: "db \<Rightarrow> string \<Rightarrow> response \<times> db" where
  "delete_todo s idp =
     (case parseInt_str idp of
        None \<Rightarrow> (Error 500 ''Failed to delete todo'', s)
      | Some i \<Rightarrow>
          (case todo_findUnique s i of
             None \<Rightarrow> (Error 404 ''Todo not found'', s)
           | Some existingTodo \<Rightarrow>
               (let dependentTodos = todosThatDependOn s i
                in case todo_delete s i of
                     None \<Rightarrow> (Error 500 ''Failed to delete todo'', s)
                   | Some s' \<Rightarrow> (Deleted i (map tid dependentTodos), s'))))"

section \<open>\<^verbatim>\<open>GET /api/todos\<close>\<close>

text \<open>The query string: each parameter is absent or a string.\<close>

record query =
  q_page :: "string option"
  q_limit :: "string option"
  q_completed :: "string option"
  q_search :: "string option"
  q_priority :: "string option"
  q_category :: "string option"
  q_user :: "string option"
  q_tag :: "string option"

text \<open>
  The \<^verbatim>\<open>where\<close> object of step 5. A condition that was not set is \<open>None\<close>.
  \<open>w_OR\<close> is the search text of the two \<^verbatim>\<open>contains\<close> conditions under \<^verbatim>\<open>OR\<close>,
  \<open>w_tags_some\<close> the tag of \<^verbatim>\<open>tags: { some: { tagId } }\<close>. The conditions on
  \<^verbatim>\<open>categoryId\<close> and \<^verbatim>\<open>userId\<close> hold what \<^verbatim>\<open>parseInt\<close> returned: the columns are
  nullable, \<^verbatim>\<open>NaN\<close> arrives as \<^verbatim>\<open>null\<close>, and the condition \<open>Some None\<close> then
  selects the rows whose column is \<^verbatim>\<open>NULL\<close>.
\<close>

record where_clause =
  w_completed :: "bool option"
  w_OR :: "string option"
  w_priority :: "Priority option"
  w_categoryId :: "int option option"
  w_userId :: "int option option"
  w_tags_some :: "int option"

text \<open>
  A guard \<^verbatim>\<open>if (p)\<close> on a parameter holds when the string is there and not empty:
  the parameter is supplied.
\<close>

definition supplied :: "string option \<Rightarrow> string option" where
  "supplied p = (case p of None \<Rightarrow> None | Some x \<Rightarrow> if x = [] then None else Some x)"

text \<open>
  \<open>guarded conv p\<close> is for the two conditions whose value the query layer can refuse,
  the name of the enum and the key of a tag (not nullable): \<open>Some None\<close> when the
  parameter is not supplied, and otherwise the converted value, or \<open>None\<close> when there
  is none, which makes the query that receives the object throw.
\<close>

definition guarded :: "(string \<Rightarrow> 'a option) \<Rightarrow> string option \<Rightarrow> 'a option option" where
  "guarded conv p =
     (case supplied p of None \<Rightarrow> Some None | Some x \<Rightarrow> map_option Some (conv x))"

definition build_where :: "query \<Rightarrow> where_clause option" where
  "build_where q = do {
     prio \<leftarrow> guarded priority_of_string (q_priority q);
     tg \<leftarrow> guarded parseInt_str (q_tag q);
     Some \<lparr>w_completed = map_option (\<lambda>c. c = ''true'') (q_completed q),
           w_OR = supplied (q_search q),
           w_priority = prio,
           w_categoryId = map_option parseInt_str (supplied (q_category q)),
           w_userId = map_option parseInt_str (supplied (q_user q)),
           w_tags_some = tg\<rparr>
   }"

text \<open>
  \<^verbatim>\<open>contains\<close> with \<^verbatim>\<open>mode: 'insensitive'\<close> becomes \<^verbatim>\<open>ILIKE\<close> with the search text
  between two \<^verbatim>\<open>%\<close>. The text itself is not escaped, so it is read as a pattern:
  \<^verbatim>\<open>%\<close> stands for any run of characters, \<^verbatim>\<open>_\<close> for any one character, and a
  backslash makes the character after it literal. \<open>like_match p x\<close> is the match of
  the whole of \<open>x\<close> against the pattern \<open>p\<close>. Case is folded for the letters A to Z.
\<close>

definition toLower :: "char \<Rightarrow> char" where
  "toLower c =
     (case map_of (zip ''ABCDEFGHIJKLMNOPQRSTUVWXYZ'' ''abcdefghijklmnopqrstuvwxyz'') c of
        None \<Rightarrow> c
      | Some l \<Rightarrow> l)"

fun like_match :: "string \<Rightarrow> string \<Rightarrow> bool" where
  "like_match [] x = (x = [])"
| "like_match (p # ps) [] = (if p = CHR ''%'' then like_match ps [] else False)"
| "like_match (p # ps) (c # cs) =
     (if p = CHR ''%'' then like_match ps (c # cs) \<or> like_match (p # ps) cs
      else if p = CHR ''_'' then like_match ps cs
      else if p = CHR 0x5C then (case ps of [] \<Rightarrow> False | e # es \<Rightarrow> e = c \<and> like_match es cs)
      else p = c \<and> like_match ps cs)"

definition contains_insensitive :: "string \<Rightarrow> string \<Rightarrow> bool" where
  "contains_insensitive col x =
     like_match (map toLower (''%'' @ x @ ''%'')) (map toLower col)"

text \<open>The meaning of a \<^verbatim>\<open>where\<close> object: a row must meet every condition that is set.\<close>

definition todo_matches :: "db \<Rightarrow> where_clause \<Rightarrow> Todo \<Rightarrow> bool" where
  "todo_matches s w t =
     ((case w_completed w of None \<Rightarrow> True | Some c \<Rightarrow> completed t = c) \<and>
      (case w_OR w of
         None \<Rightarrow> True
       | Some x \<Rightarrow>
           contains_insensitive (title t) x \<or>
           (case description t of None \<Rightarrow> False | Some d \<Rightarrow> contains_insensitive d x)) \<and>
      (case w_priority w of None \<Rightarrow> True | Some p \<Rightarrow> priority t = p) \<and>
      (case w_categoryId w of None \<Rightarrow> True | Some c \<Rightarrow> categoryId t = c) \<and>
      (case w_userId w of None \<Rightarrow> True | Some u \<Rightarrow> userId t = u) \<and>
      (case w_tags_some w of None \<Rightarrow> True | Some g \<Rightarrow> g \<in> set (tagIdsOf s (tid t))))"

text \<open>
  \<^verbatim>\<open>findMany({ where, orderBy: { createdAt: 'desc' }, skip, take })\<close>. A negative
  \<^verbatim>\<open>skip\<close> is refused; a negative \<^verbatim>\<open>take\<close> takes from the end of the ordered rows.
  Rows with equal time stamps keep their table order.
\<close>

definition todo_findMany :: "db \<Rightarrow> where_clause \<Rightarrow> int \<Rightarrow> int \<Rightarrow> Todo list option" where
  "todo_findMany s w skip take' =
     (if skip < 0 then None
      else
        (let rows = sort_key (\<lambda>t. - createdAt t) (filter (todo_matches s w) (todos s))
         in Some (if 0 \<le> take' then take (nat take') (drop (nat skip) rows)
                  else rev (take (nat (- take')) (drop (nat skip) (rev rows))))))"

text \<open>
  The handler. \<^verbatim>\<open>page\<close> and \<^verbatim>\<open>limit\<close> default to 1 and 10; an unparsable one makes
  \<^verbatim>\<open>skip\<close> or \<^verbatim>\<open>take\<close> \<^verbatim>\<open>NaN\<close>, which \<^verbatim>\<open>findMany\<close> refuses. The answer carries the
  page as \<^verbatim>\<open>data\<close> and, under \<^verbatim>\<open>pagination\<close>, \<^verbatim>\<open>total\<close> (the count under the same
  \<^verbatim>\<open>where\<close>, not the count of all todos), \<^verbatim>\<open>currentPage\<close> and \<^verbatim>\<open>limit\<close>. The
  handler writes nothing.
\<close>

definition get_todos :: "db \<Rightarrow> query \<Rightarrow> response" where
  "get_todos s q =
     (case (case q_page q of None \<Rightarrow> Some 1 | Some p \<Rightarrow> parseInt_str p) of
        None \<Rightarrow> Error 500 ''Failed to fetch todos''
      | Some page \<Rightarrow>
          (case (case q_limit q of None \<Rightarrow> Some 10 | Some l \<Rightarrow> parseInt_str l) of
             None \<Rightarrow> Error 500 ''Failed to fetch todos''
           | Some limit \<Rightarrow>
               (let skip = (page - 1) * limit; take' = limit
                in case build_where q of
                     None \<Rightarrow> Error 500 ''Failed to fetch todos''
                   | Some w \<Rightarrow>
                       (case todo_findMany s w skip take' of
                          None \<Rightarrow> Error 500 ''Failed to fetch todos''
                        | Some todos' \<Rightarrow>
                            (let filteredCount = todo_count s (todo_matches s w)
                             in Listed todos' filteredCount page take')))))"

text \<open>
  The filter as the specification words it, on the query string itself: the filters on
  \<^verbatim>\<open>completed\<close>, \<^verbatim>\<open>priority\<close>, category, user and tag are conjoined, each comparing
  the column with the value that the parameter denotes, and the text search holds when
  the text occurs in the title or in the description, letter case aside.
  \<^verbatim>\<open>completed\<close> is supplied when it is there, and asks for completed todos exactly
  when it is the string \<^verbatim>\<open>true\<close>.
\<close>

fun occurs_in :: "string \<Rightarrow> string \<Rightarrow> bool" where
  "occurs_in x [] = (x = [])"
| "occurs_in x (c # cs) = (take (length x) (c # cs) = x \<or> occurs_in x cs)"

definition has_substring :: "string \<Rightarrow> string \<Rightarrow> bool" where
  "has_substring col x = occurs_in (map toLower x) (map toLower col)"

definition satisfies_filters :: "db \<Rightarrow> query \<Rightarrow> Todo \<Rightarrow> bool" where
  "satisfies_filters s q t =
     ((case q_completed q of None \<Rightarrow> True | Some c \<Rightarrow> completed t = (c = ''true'')) \<and>
      (case supplied (q_priority q) of None \<Rightarrow> True | Some p \<Rightarrow> priority_name (priority t) = p) \<and>
      (case supplied (q_category q) of
         None \<Rightarrow> True
       | Some c \<Rightarrow> (case parseInt_str c of None \<Rightarrow> False | Some k \<Rightarrow> categoryId t = Some k)) \<and>
      (case supplied (q_user q) of
         None \<Rightarrow> True
       | Some u \<Rightarrow> (case parseInt_str u of None \<Rightarrow> False | Some k \<Rightarrow> userId t = Some k)) \<and>
      (case supplied (q_tag q) of
         None \<Rightarrow> True
       | Some g \<Rightarrow>
           (case parseInt_str g of
              None \<Rightarrow> False
            | Some k \<Rightarrow> list_ex (\<lambda>r. todoId r = tid t \<and> tagId r = k) (tagsOnTodos s))) \<and>
      (case supplied (q_search q) of
         None \<Rightarrow> True
       | Some x \<Rightarrow>
           list_ex (\<lambda>col. has_substring col x)
             (title t # (case description t of None \<Rightarrow> [] | Some d \<Rightarrow> [d]))))"

text \<open>
  The requests on which the handler and the wording above agree: a category and a
  user that are supplied are numbers, and the search text has none of the three
  characters that \<^verbatim>\<open>LIKE\<close> reads as part of a pattern.
\<close>

definition numeric_if_supplied :: "string option \<Rightarrow> bool" where
  "numeric_if_supplied p =
     (case supplied p of None \<Rightarrow> True | Some x \<Rightarrow> (case parseInt_str x of None \<Rightarrow> False | Some k \<Rightarrow> True))"

definition plain_text :: "string \<Rightarrow> bool" where
  "plain_text x = list_all (\<lambda>c. c \<notin> set [CHR ''%'', CHR ''_'', CHR 0x5C]) x"

definition plain_query :: "query \<Rightarrow> bool" where
  "plain_query q =
     (numeric_if_supplied (q_category q) \<and> numeric_if_supplied (q_user q) \<and>
      (case q_search q of None \<Rightarrow> True | Some x \<Rightarrow> plain_text x))"

section \<open>An example store\<close>

text \<open>
  Three todos A, B and C, none completed: A depends on B and B depends on C. A carries
  tag 7; B has a note, a history row and an attachment. The sequences are ahead of
  the keys in use.
\<close>

definition example_todo :: "int \<Rightarrow> string \<Rightarrow> Todo" where
  "example_todo i t =
     \<lparr>tid = i, title = t, description = None, completed = False, priority = HIGH,
      createdAt = 100 + i, updatedAt = 100 + i, userId = None, categoryId = None\<rparr>"

definition example_db :: db where
  "example_db =
     \<lparr>todos = [example_todo 1 ''A'', example_todo 2 ''B'', example_todo 3 ''C''],
      users = [1], categories = [1], tags = [7, 8],
      tagsOnTodos = [\<lparr>todoId = 1, tagId = 7, assignedAt = 101\<rparr>],
      notes_tbl = [\<lparr>note_id = 1, content = ''call back'', note_todoId = 2, note_createdAt = 102\<rparr>],
      todoHistory = [\<lparr>hist_id = 1, hist_todoId = 2, action = ''CREATED'',
                      hist_description = ''Todo was created'', hist_createdAt = 102\<rparr>],
      attachments = [\<lparr>att_id = 1, filename = ''a.txt'', filepath = ''/tmp/a.txt'',
                      mimeType = ''text/plain'', att_todoId = 2\<rparr>],
      todoDependencies = [(1, 2), (2, 3)],
      todos_id_seq = 4, notes_id_seq = 2, todo_history_id_seq = 2\<rparr>"

text \<open>The body \<^verbatim>\<open>{}\<close>.\<close>

definition empty_body :: body where
  "empty_body =
     \<lparr>b_title = None, b_description = None, b_completed = None, b_priority = None,
      b_categoryId = None, b_userId = None, b_tagIds = None, b_notes = None,
      b_dependencies = None, b_removeTags = None, b_removeNotes = None,
      b_removeDependencies = None\<rparr>"

text \<open>
  A second store for the list: four todos of high priority. The first has the word in
  its title, the second in its description in capitals, the third nowhere, and the
  fourth is not completed.
\<close>

definition list_db :: db where
  "list_db =
     \<lparr>todos =
        [\<lparr>tid = 1, title = ''Buy milk'', description = None, completed = True,
          priority = HIGH, createdAt = 101, updatedAt = 101, userId = None, categoryId = None\<rparr>,
         \<lparr>tid = 2, title = ''Call bank'', description = Some ''about the MILK loan'',
          completed = True, priority = HIGH, createdAt = 102, updatedAt = 102,
          userId = None, categoryId = Some 1\<rparr>,
         \<lparr>tid = 3, title = ''Read'', description = Some ''a novel'', completed = True,
          priority = HIGH, createdAt = 103, updatedAt = 103, userId = None, categoryId = Some 1\<rparr>,
         \<lparr>tid = 4, title = ''milk run'', description = None, completed = False,
          priority = HIGH, createdAt = 104, updatedAt = 104, userId = None, categoryId = Some 1\<rparr>],
      users = [1], categories = [1], tags = [], tagsOnTodos = [], notes_tbl = [],
      todoHistory = [], attachments = [], todoDependencies = [],
      todos_id_seq = 5, notes_id_seq = 1, todo_history_id_seq = 1\<rparr>"

text \<open>The empty query string, and \<^verbatim>\<open>?completed=true&priority=HIGH&search=milk\<close>.\<close>

definition empty_query :: query where
  "empty_query =
     \<lparr>q_page = None, q_limit = None, q_completed = None, q_search = None,
      q_priority = None, q_category = None, q_user = None, q_tag = None\<rparr>"

definition example_query :: query where
  "example_query =
     empty_query\<lparr>q_completed := Some ''true'', q_priority := Some ''HIGH'',
                 q_search := Some ''milk''\<rparr>"

section \<open>Properties of the toggle handler\<close>

lemma find_map_update:
  assumes "find (\<lambda>t. tid t = i) xs = Some t" and "\<And>r. tid (g r) = tid r"
  shows "find (\<lambda>t. tid t = i) (map (\<lambda>r. if tid r = i then g r else r) xs) = Some (g t)"
  using assms by (induction xs) (auto split: if_splits)

lemma todo_update_Some:
  assumes "todo_findUnique s i = Some t" and "\<And>r. tid (f r) = tid r"
  shows "\<exists>s'. todo_update s i f = Some (f t, s') \<and>
           todo_findUnique s' i = Some (f t) \<and>
           todoHistory s' = todoHistory s \<and> todo_history_id_seq s' = todo_history_id_seq s"
proof -
  have "find (\<lambda>t. tid t = i) (map (\<lambda>r. if tid r = i then f r else r) (todos s)) = Some (f t)"
    using find_map_update[where g = f] assms by (simp add: todo_findUnique_def)
  then show ?thesis using assms(1) by (simp add: todo_update_def todo_findUnique_def)
qed

lemma todoHistory_create_Some:
  assumes "todo_findUnique s i = Some t"
    and "list_all (\<lambda>h. hist_id h < todo_history_id_seq s) (todoHistory s)"
  shows "todoHistory_create s now i a d =
           Some (s\<lparr>todoHistory := todoHistory s @
                     [\<lparr>hist_id = todo_history_id_seq s, hist_todoId = i, action = a,
                       hist_description = d, hist_createdAt = now\<rparr>],
                   todo_history_id_seq := todo_history_id_seq s + 1\<rparr>)"
  using assms by (auto simp: todoHistory_create_def list_all_iff)

text \<open>
  What one toggle does to an existing todo, in a store whose history sequence is ahead
  of the keys of the history table (as it is when the rows came from the sequence).
\<close>

lemma patch_toggle_existing:
  assumes "parseInt_str idp = Some i" and "todo_findUnique s i = Some t"
    and "list_all (\<lambda>h. hist_id h < todo_history_id_seq s) (todoHistory s)"
  shows "\<exists>result cnt blocked s'.
           patch_toggle s now idp =
             (Toggled result
                (map tid (if \<not> completed t then filter (\<lambda>d. \<not> completed d) (include_dependencies s i)
                          else [])) cnt blocked, s') \<and>
           result = t\<lparr>completed := \<not> completed t, updatedAt := now\<rparr> \<and>
           todo_findUnique s' i = Some result \<and>
           todoHistory s' = todoHistory s @
              [\<lparr>hist_id = todo_history_id_seq s, hist_todoId = i,
                action = (if completed t then ''REOPENED'' else ''COMPLETED''),
                hist_description = (if completed t then ''Todo was reopened''
                                    else ''Todo was marked as completed''),
                hist_createdAt = now\<rparr>] \<and>
           todo_history_id_seq s' = todo_history_id_seq s + 1"
proof -
  let ?f = "\<lambda>r. r\<lparr>completed := \<not> completed t, updatedAt := now\<rparr>"
  obtain s1 where u: "todo_update s i ?f = Some (?f t, s1)"
    and f1: "todo_findUnique s1 i = Some (?f t)"
    and h1: "todoHistory s1 = todoHistory s" "todo_history_id_seq s1 = todo_history_id_seq s"
    using todo_update_Some[OF assms(2), of ?f] by auto
  have inv1: "list_all (\<lambda>h. hist_id h < todo_history_id_seq s1) (todoHistory s1)"
    using assms(3) h1 by simp
  note c = todoHistory_create_Some[OF f1 inv1]
  have f2: "\<And>a d. todo_findUnique (s1\<lparr>todoHistory := a, todo_history_id_seq := d\<rparr>) i = todo_findUnique s1 i"
    by (simp add: todo_findUnique_def)
  show ?thesis
    using assms(1,2) u c f1 h1
    by (simp add: patch_toggle_def toggle_transaction_def Let_def f2)
qed

text \<open>
  C5: toggling an existing todo twice returns \<^verbatim>\<open>completed\<close> to its original value, and
  the two toggles append exactly two history rows to that todo, the first
  \<^verbatim>\<open>COMPLETED\<close> and the second \<^verbatim>\<open>REOPENED\<close> when the todo was open, and the other way
  round when it was completed. Both requests are answered with 200.
\<close>

theorem toggle_twice:
  assumes "parseInt_str idp = Some i" and "todo_findUnique s i = Some t"
    and "list_all (\<lambda>h. hist_id h < todo_history_id_seq s) (todoHistory s)"
  shows "\<exists>r1 s1 r2 s2 t2 h1 h2.
           patch_toggle s now1 idp = (r1, s1) \<and> status r1 = 200 \<and>
           patch_toggle s1 now2 idp = (r2, s2) \<and> status r2 = 200 \<and>
           todo_findUnique s2 i = Some t2 \<and> completed t2 = completed t \<and>
           todoHistory s2 = todoHistory s @ [h1, h2] \<and>
           hist_todoId h1 = i \<and> hist_todoId h2 = i \<and>
           action h1 = (if completed t then ''REOPENED'' else ''COMPLETED'') \<and>
           action h2 = (if completed t then ''COMPLETED'' else ''REOPENED'')"
proof -
  obtain t1 u1 c1 b1 s1 where
    p1: "patch_toggle s now1 idp = (Toggled t1 u1 c1 b1, s1)"
    and t1: "t1 = t\<lparr>completed := \<not> completed t, updatedAt := now1\<rparr>"
    and f1: "todo_findUnique s1 i = Some t1"
    and h1: "todoHistory s1 = todoHistory s @
              [\<lparr>hist_id = todo_history_id_seq s, hist_todoId = i,
                action = (if completed t then ''REOPENED'' else ''COMPLETED''),
                hist_description = (if completed t then ''Todo was reopened''
                                    else ''Todo was marked as completed''),
                hist_createdAt = now1\<rparr>]"
    and q1: "todo_history_id_seq s1 = todo_history_id_seq s + 1"
    using patch_toggle_existing[OF assms, of now1] by blast
  have inv1: "list_all (\<lambda>h. hist_id h < todo_history_id_seq s1) (todoHistory s1)"
    using assms(3) by (auto simp: h1 q1 list_all_iff)
  obtain t2 u2 c2 b2 s2 where
    p2: "patch_toggle s1 now2 idp = (Toggled t2 u2 c2 b2, s2)"
    and t2: "t2 = t1\<lparr>completed := \<not> completed t1, updatedAt := now2\<rparr>"
    and f2: "todo_findUnique s2 i = Some t2"
    and h2: "todoHistory s2 = todoHistory s1 @
              [\<lparr>hist_id = todo_history_id_seq s1, hist_todoId = i,
                action = (if completed t1 then ''REOPENED'' else ''COMPLETED''),
                hist_description = (if completed t1 then ''Todo was reopened''
                                    else ''Todo was marked as completed''),
                hist_createdAt = now2\<rparr>]"
    using patch_toggle_existing[OF assms(1) f1 inv1, of now2] by blast
  have c2: "completed t2 = completed t" by (simp add: t1 t2)
  show ?thesis
    apply (rule exI[of _ "Toggled t1 u1 c1 b1"], rule exI[of _ s1])
    apply (rule exI[of _ "Toggled t2 u2 c2 b2"], rule exI[of _ s2], rule exI[of _ t2])
    using p1 p2 f2 c2 by (simp add: h1 h2 t1)
qed

theorem toggle_twice_witness:
  "parseInt_str ''1'' = Some 1 \<and> todo_findUnique example_db 1 = Some (example_todo 1 ''A'') \<and>
   list_all (\<lambda>h. hist_id h < todo_history_id_seq example_db) (todoHistory example_db) \<and>
   (\<exists>r1 s1 r2 s2 t2 h1 h2.
           patch_toggle example_db 200 ''1'' = (r1, s1) \<and> status r1 = 200 \<and>
           patch_toggle s1 300 ''1'' = (r2, s2) \<and> status r2 = 200 \<and>
           todo_findUnique s2 1 = Some t2 \<and> completed t2 = False \<and>
           todoHistory s2 = todoHistory example_db @ [h1, h2] \<and>
           hist_todoId h1 = 1 \<and> hist_todoId h2 = 1 \<and>
           action h1 = ''COMPLETED'' \<and> action h2 = ''REOPENED'')"
proof -
  have h1: "parseInt_str ''1'' = Some 1" by code_simp
  have h2: "todo_findUnique example_db 1 = Some (example_todo 1 ''A'')" by code_simp
  have h3: "list_all (\<lambda>h. hist_id h < todo_history_id_seq example_db) (todoHistory example_db)"
    by code_simp
  have c: "completed (example_todo 1 ''A'') = False" by (simp add: example_todo_def)
  show ?thesis using h1 h2 h3 toggle_twice[OF h1 h2 h3, of 200 300] unfolding c by simp
qed

text \<open>
  C6: the toggle is unconditional. Nothing is assumed about the dependencies of the
  todo: the flag is flipped whatever their state, and the dependencies that are not
  completed are only listed in the answer (\<^verbatim>\<open>uncompletedDependencies\<close>, the second
  argument of \<open>Toggled\<close>), and only when the todo is being completed.
\<close>

theorem toggle_ignores_dependencies:
  assumes "parseInt_str idp = Some i" and "todo_findUnique s i = Some t"
    and "list_all (\<lambda>h. hist_id h < todo_history_id_seq s) (todoHistory s)"
  shows "\<exists>result cnt blocked s'.
           patch_toggle s now idp =
             (Toggled result
                (map tid (if completed t then []
                          else filter (\<lambda>d. \<not> completed d) (include_dependencies s i)))
                cnt blocked, s') \<and>
           completed result = (\<not> completed t) \<and>
           map_option completed (todo_findUnique s' i) = Some (\<not> completed t)"
proof -
  obtain result cnt blocked s' where
    "patch_toggle s now idp =
       (Toggled result
          (map tid (if \<not> completed t then filter (\<lambda>d. \<not> completed d) (include_dependencies s i)
                    else [])) cnt blocked, s')"
    and "result = t\<lparr>completed := \<not> completed t, updatedAt := now\<rparr>"
    and "todo_findUnique s' i = Some result"
    using patch_toggle_existing[OF assms, of now] by blast
  then show ?thesis by (cases "completed t") auto
qed

theorem toggle_ignores_dependencies_witness:
  "parseInt_str ''1'' = Some 1 \<and> todo_findUnique example_db 1 = Some (example_todo 1 ''A'') \<and>
   list_all (\<lambda>h. hist_id h < todo_history_id_seq example_db) (todoHistory example_db) \<and>
   (\<exists>result cnt blocked s'.
           patch_toggle example_db 200 ''1'' = (Toggled result [2] cnt blocked, s') \<and>
           completed result = True \<and>
           map_option completed (todo_findUnique s' 1) = Some True)"
proof -
  have h1: "parseInt_str ''1'' = Some 1" by code_simp
  have h2: "todo_findUnique example_db 1 = Some (example_todo 1 ''A'')" by code_simp
  have h3: "list_all (\<lambda>h. hist_id h < todo_history_id_seq example_db) (todoHistory example_db)"
    by code_simp
  have c: "completed (example_todo 1 ''A'') = False" by (simp add: example_todo_def)
  have d: "map tid (filter (\<lambda>d. \<not> completed d) (include_dependencies example_db 1)) = [2]"
    by code_simp
  show ?thesis
    using h1 h2 h3 toggle_ignores_dependencies[OF h1 h2 h3, of 200] unfolding c by (simp add: d)
qed

section \<open>Properties of the delete handler\<close>

text \<open>
  C9: deleting an existing todo succeeds, and afterwards the store holds no note, no
  history row, no attachment and no tag-join row of that todo, and no dependency edge
  that starts or ends at it.
\<close>

theorem delete_cascades:
  assumes "parseInt_str idp = Some i" and "todo_findUnique s i = Some t"
  shows "\<exists>s'. delete_todo s idp = (Deleted i (map tid (todosThatDependOn s i)), s') \<and>
           todo_findUnique s' i = None \<and>
           length (filter (\<lambda>n. note_todoId n = i) (notes_tbl s')) = 0 \<and>
           length (filter (\<lambda>h. hist_todoId h = i) (todoHistory s')) = 0 \<and>
           length (filter (\<lambda>a. att_todoId a = i) (attachments s')) = 0 \<and>
           length (filter (\<lambda>r. todoId r = i) (tagsOnTodos s')) = 0 \<and>
           length (filter (\<lambda>e. fst e = i \<or> snd e = i) (todoDependencies s')) = 0"
proof -
  have "find (\<lambda>t. tid t = i) (filter (\<lambda>t. tid t \<noteq> i) xs) = None" for xs :: "Todo list"
    by (induction xs) auto
  then show ?thesis
    using assms
    by (auto simp: delete_todo_def todo_delete_def Let_def todo_findUnique_def filter_empty_conv)
qed

theorem delete_cascades_witness:
  "parseInt_str ''2'' = Some 2 \<and> todo_findUnique example_db 2 = Some (example_todo 2 ''B'') \<and>
   (\<exists>s'. delete_todo example_db ''2'' = (Deleted 2 [1], s') \<and>
           todo_findUnique s' 2 = None \<and>
           length (filter (\<lambda>n. note_todoId n = 2) (notes_tbl s')) = 0 \<and>
           length (filter (\<lambda>h. hist_todoId h = 2) (todoHistory s')) = 0 \<and>
           length (filter (\<lambda>a. att_todoId a = 2) (attachments s')) = 0 \<and>
           length (filter (\<lambda>r. todoId r = 2) (tagsOnTodos s')) = 0 \<and>
           length (filter (\<lambda>e. fst e = 2 \<or> snd e = 2) (todoDependencies s')) = 0)"
proof -
  have h1: "parseInt_str ''2'' = Some 2" by code_simp
  have h2: "todo_findUnique example_db 2 = Some (example_todo 2 ''B'')" by code_simp
  have h3: "map tid (todosThatDependOn example_db 2) = [1]" by code_simp
  show ?thesis using h1 h2 delete_cascades[OF h1 h2] unfolding h3 by blast
qed

section \<open>Properties of the create handler\<close>

lemma forEach_preserves:
  assumes "\<And>x s s'. f x s = Some s' \<Longrightarrow> g s' = g s"
  shows "forEach f xs s = Some s' \<Longrightarrow> g s' = g s"
proof (induction xs arbitrary: s)
  case Nil
  then show ?case by simp
next
  case (Cons x xs)
  then show ?case using assms by (auto split: option.splits)
qed

lemma tagsOnTodos_create_todos: "tagsOnTodos_create s now i g = Some s' \<Longrightarrow> todos s' = todos s"
  by (auto simp: tagsOnTodos_create_def split: if_splits)

lemma note_create_todos: "note_create s now i c = Some s' \<Longrightarrow> todos s' = todos s"
  by (auto simp: note_create_def split: if_splits)

lemma todoHistory_create_todos: "todoHistory_create s now i a d = Some s' \<Longrightarrow> todos s' = todos s"
  by (auto simp: todoHistory_create_def split: if_splits)

lemma connect_dependencies_todos: "connect_dependencies s i ds = Some s' \<Longrightarrow> todos s' = todos s"
  by (auto simp: connect_dependencies_def split: if_splits)

lemma todo_create_Some:
  assumes "todo_create s now ttl descr prio uid cid deps = Some (todo, s')"
  shows "todos s' = todos s @ [todo] \<and> tid todo \<notin> set (map tid (todos s)) \<and>
         completed todo = False \<and> priority todo = prio"
  using assms
  by (auto simp: todo_create_def Let_def dest!: connect_dependencies_todos
           split: if_splits option.splits)

lemma post_transaction_Some:
  assumes "post_transaction s now b = Some (todo, s')"
  shows "todos s' = todos s @ [todo] \<and> tid todo \<notin> set (map tid (todos s)) \<and>
         completed todo = False \<and>
         arg_Priority (orElse (b_priority b) (JStr ''MEDIUM'')) = Some (priority todo)"
proof -
  from assms obtain ttl descr prio uid cid deps s1 s2 s3 where
    p: "arg_Priority (orElse (b_priority b) (JStr ''MEDIUM'')) = Some prio"
    and c: "todo_create s now ttl descr prio uid cid deps = Some (todo, s1)"
    and t: "forEach (\<lambda>tagId' s'. case parseInt tagId' of None \<Rightarrow> None
                                 | Some g \<Rightarrow> tagsOnTodos_create s' now (tid todo) g)
             (orEmpty (b_tagIds b)) s1 = Some s2"
    and n: "forEach (\<lambda>noteContent s'. case arg_String noteContent of None \<Rightarrow> None
                                 | Some c \<Rightarrow> note_create s' now (tid todo) c)
             (orEmpty (b_notes b)) s2 = Some s3"
    and h: "todoHistory_create s3 now (tid todo) ''CREATED'' ''Todo was created'' = Some s'"
    by (auto simp: post_transaction_def bind_eq_Some_conv)
  have "todos s2 = todos s1"
    by (rule forEach_preserves[OF _ t]) (auto split: option.splits dest: tagsOnTodos_create_todos)
  moreover have "todos s3 = todos s2"
    by (rule forEach_preserves[OF _ n]) (auto split: option.splits dest: note_create_todos)
  moreover have "todos s' = todos s3" using h by (rule todoHistory_create_todos)
  ultimately show ?thesis using todo_create_Some[OF c] p by simp
qed

lemma find_append_new:
  "i \<notin> set (map tid xs) \<Longrightarrow> tid t = i \<Longrightarrow> find (\<lambda>r. tid r = i) (xs @ [t]) = Some t"
  by (induction xs) auto

text \<open>
  C4: a create request that is answered with 201 and has no \<^verbatim>\<open>priority\<close> yields a todo
  with \<^verbatim>\<open>completed = false\<close> and \<^verbatim>\<open>priority = MEDIUM\<close>, in the answer and in the stored
  row. The handler does not read \<^verbatim>\<open>completed\<close> from the body, so nothing has to be
  assumed about that field: the statement covers the requests that omit it.
\<close>

theorem create_defaults:
  assumes "post_todos s now b = (r, s')" and "status r = 201" and "b_priority b = None"
  shows "\<exists>t tgs deps. r = Created t tgs deps \<and> completed t = False \<and> priority t = MEDIUM \<and>
           todo_findUnique s' (tid t) = Some t"
proof (cases "post_validate s b")
  case Pass
  show ?thesis
  proof (cases "post_transaction s now b")
    case None
    with Pass assms show ?thesis by (auto simp: post_todos_def)
  next
    case (Some p)
    obtain todo s1 where p: "p = (todo, s1)" by (cases p)
    note tx = post_transaction_Some[OF Some[unfolded p]]
    have f: "todo_findUnique s1 (tid todo) = Some todo"
      using tx by (simp add: todo_findUnique_def find_append_new)
    have "priority todo = MEDIUM"
      using tx assms(3) by (simp add: orElse_def priority_of_string_def)
    with Pass Some p f tx assms(1) show ?thesis by (auto simp: post_todos_def)
  qed
next
  case (Reject m)
  with assms show ?thesis by (auto simp: post_todos_def)
next
  case Throw
  with assms show ?thesis by (auto simp: post_todos_def)
qed

theorem create_defaults_witness:
  "post_todos example_db 200 (empty_body\<lparr>b_title := Some (JStr ''D'')\<rparr>)
     = (Created \<lparr>tid = 4, title = ''D'', description = None, completed = False, priority = MEDIUM,
                 createdAt = 200, updatedAt = 200, userId = None, categoryId = None\<rparr> [] [],
        snd (post_todos example_db 200 (empty_body\<lparr>b_title := Some (JStr ''D'')\<rparr>))) \<and>
   b_priority (empty_body\<lparr>b_title := Some (JStr ''D'')\<rparr>) = None \<and>
   todo_findUnique (snd (post_todos example_db 200 (empty_body\<lparr>b_title := Some (JStr ''D'')\<rparr>))) 4
     = Some \<lparr>tid = 4, title = ''D'', description = None, completed = False, priority = MEDIUM,
             createdAt = 200, updatedAt = 200, userId = None, categoryId = None\<rparr>"
proof -
  let ?b = "empty_body\<lparr>b_title := Some (JStr ''D'')\<rparr>"
  let ?t = "\<lparr>tid = 4, title = ''D'', description = None, completed = False, priority = MEDIUM,
             createdAt = 200, updatedAt = 200, userId = None, categoryId = None\<rparr>"
  have h1: "post_todos example_db 200 ?b = (Created ?t [] [], snd (post_todos example_db 200 ?b))"
    by code_simp
  have h2: "status (Created ?t [] []) = 201" by simp
  have h3: "b_priority ?b = None" by (simp add: empty_body_def)
  show ?thesis using h1 h3 create_defaults[OF h1 h2 h3] by auto
qed

section \<open>The dependency checks of the update handler on the example store\<close>

text \<open>
  C3: the check is local. In the example store A depends on B and B depends on C;
  the only todo that depends on C is B. The update of C with \<^verbatim>\<open>dependencies: [1]\<close>
  is answered with 200 and adds the edge from C to A, which closes the cycle
  A, B, C.
\<close>

theorem transitive_cycle_not_detected:
  "(1, 2) \<in> set (todoDependencies example_db) \<and> (2, 3) \<in> set (todoDependencies example_db) \<and>
   map tid (todosThatDependOn example_db 3) = [2] \<and>
   status (fst (put_todo example_db 200 ''3'' (empty_body\<lparr>b_dependencies := Some [JNum 1]\<rparr>))) = 200 \<and>
   todoDependencies (snd (put_todo example_db 200 ''3'' (empty_body\<lparr>b_dependencies := Some [JNum 1]\<rparr>)))
     = [(1, 2), (2, 3), (3, 1)]"
  by code_simp

text \<open>
  C1, on the code as it is: the update of todo 3 with \<^verbatim>\<open>dependencies: [3]\<close> is refused,
  but with \<^verbatim>\<open>dependencies: ["3"]\<close> it is answered with 200 and the edge from 3 to 3 is
  stored. \<^verbatim>\<open>dependencies.includes(id)\<close> compares the string with the number, while
  every other use of the element parses it first.
\<close>

theorem self_dependency_committed:
  "fst (put_todo example_db 200 ''3'' (empty_body\<lparr>b_dependencies := Some [JNum 3]\<rparr>))
     = Error 400 ''A todo cannot depend on itself'' \<and>
   status (fst (put_todo example_db 200 ''3'' (empty_body\<lparr>b_dependencies := Some [JStr ''3'']\<rparr>))) = 200 \<and>
   todoDependencies (snd (put_todo example_db 200 ''3'' (empty_body\<lparr>b_dependencies := Some [JStr ''3'']\<rparr>)))
     = [(1, 2), (2, 3), (3, 3)]"
  by code_simp

section \<open>Properties of the update handler\<close>

text \<open>The row of the todo through the steps of the update transaction.\<close>

lemma todo_update_find:
  assumes "todo_update s i f = Some (r, s')" and "todo_findUnique s i = Some t"
    and "\<And>r. tid (f r) = tid r"
  shows "todo_findUnique s' i = Some (f t) \<and> r = f t"
  using todo_update_Some[OF assms(2), of f] assms(1,3) by auto

lemma put_remove_tags_todos: "put_remove_tags s i rs = Some s' \<Longrightarrow> todos s' = todos s"
  by (auto simp: put_remove_tags_def tagsOnTodos_deleteMany_def split: if_splits)

lemma put_add_tags_todos: "put_add_tags s now i ts = Some s' \<Longrightarrow> todos s' = todos s"
  unfolding put_add_tags_def Let_def
  by (auto split: if_splits option.splits elim!: forEach_preserves[rotated] dest: tagsOnTodos_create_todos)

lemma put_add_notes_todos: "put_add_notes s now i ns = Some s' \<Longrightarrow> todos s' = todos s"
  unfolding put_add_notes_def
  by (auto split: if_splits option.splits elim!: forEach_preserves[rotated] dest: note_create_todos)

lemma put_remove_notes_todos: "put_remove_notes s rs = Some s' \<Longrightarrow> todos s' = todos s"
  by (auto simp: put_remove_notes_def note_deleteMany_def split: if_splits)

lemma find_todos_cong: "todos s' = todos s \<Longrightarrow> todo_findUnique s' i = todo_findUnique s i"
  by (simp add: todo_findUnique_def)

lemma put_add_dependencies_todos: "put_add_dependencies s i ds = Some s' \<Longrightarrow> todos s' = todos s"
  by (auto simp: put_add_dependencies_def bind_eq_Some_conv todo_update_def
           split: if_splits option.splits dest!: connect_dependencies_todos)

lemma put_remove_dependencies_todos:
  "put_remove_dependencies s i ds = Some s' \<Longrightarrow> todos s' = todos s"
  by (auto simp: put_remove_dependencies_def bind_eq_Some_conv todo_update_def
           disconnect_dependencies_def split: if_splits option.splits)

lemma put_transaction_steps:
  assumes "put_transaction s now i b ch = Some (r, s')"
  obtains d s1 s2 s3 s4 s5 s6 s7 where
    "update_data b = Some d"
    "todo_update_data s now i d = Some (r, s1)"
    "put_remove_tags s1 i (orEmpty (b_removeTags b)) = Some s2"
    "put_add_tags s2 now i (orEmpty (b_tagIds b)) = Some s3"
    "put_add_notes s3 now i (orEmpty (b_notes b)) = Some s4"
    "put_remove_notes s4 (orEmpty (b_removeNotes b)) = Some s5"
    "put_add_dependencies s5 i (orEmpty (b_dependencies b)) = Some s6"
    "put_remove_dependencies s6 i (orEmpty (b_removeDependencies b)) = Some s7"
    "todoHistory_create s7 now i ''UPDATED'' (''Updated fields: '' @ join '', '' ch) = Some s'"
  using assms by (auto simp: put_transaction_def bind_eq_Some_conv)

lemma apply_data_tid: "tid (apply_data now d r) = tid r"
  by (simp add: apply_data_def)

lemma put_transaction_find:
  assumes "put_transaction s now i b ch = Some (r, s')" and "todo_findUnique s i = Some t"
  shows "\<exists>d. update_data b = Some d \<and> r = apply_data now d t \<and>
             todo_findUnique s' i = Some r"
proof -
  from assms(1) obtain d s1 s2 s3 s4 s5 s6 s7 where
    d: "update_data b = Some d"
    and 1: "todo_update_data s now i d = Some (r, s1)"
    and 2: "put_remove_tags s1 i (orEmpty (b_removeTags b)) = Some s2"
    and 3: "put_add_tags s2 now i (orEmpty (b_tagIds b)) = Some s3"
    and 4: "put_add_notes s3 now i (orEmpty (b_notes b)) = Some s4"
    and 5: "put_remove_notes s4 (orEmpty (b_removeNotes b)) = Some s5"
    and 6: "put_add_dependencies s5 i (orEmpty (b_dependencies b)) = Some s6"
    and 7: "put_remove_dependencies s6 i (orEmpty (b_removeDependencies b)) = Some s7"
    and 8: "todoHistory_create s7 now i ''UPDATED'' (''Updated fields: '' @ join '', '' ch) = Some s'"
    by (rule put_transaction_steps)
  have u: "todo_update s i (apply_data now d) = Some (r, s1)"
    using 1 by (auto simp: todo_update_data_def split: if_splits)
  have r: "r = apply_data now d t" and f1: "todo_findUnique s1 i = Some r"
    using todo_update_find[OF u assms(2)] by (simp_all add: apply_data_tid)
  have "todo_findUnique s' i = Some r"
    using f1 put_remove_tags_todos[OF 2] put_add_tags_todos[OF 3] put_add_notes_todos[OF 4]
      put_remove_notes_todos[OF 5] put_add_dependencies_todos[OF 6]
      put_remove_dependencies_todos[OF 7] todoHistory_create_todos[OF 8]
    by (simp add: todo_findUnique_def)
  with d r show ?thesis by blast
qed

lemma field_absent: "field conv None = Some None"
  by (simp add: field_def)

lemma update_data_absent:
  assumes "update_data b = Some d"
  shows "(b_title b = None \<longrightarrow> d_title d = None) \<and>
         (b_description b = None \<longrightarrow> d_description d = None) \<and>
         (b_completed b = None \<longrightarrow> d_completed d = None) \<and>
         (b_priority b = None \<longrightarrow> d_priority d = None) \<and>
         (b_categoryId b = None \<longrightarrow> d_categoryId d = None) \<and>
         (b_userId b = None \<longrightarrow> d_userId d = None)"
  using assms by (auto simp: update_data_def bind_eq_Some_conv field_absent)

text \<open>
  The two outcomes of an update of an existing todo: an error answer that leaves the
  store as it was, or a committed transaction.
\<close>

lemma put_todo_cases:
  assumes "parseInt_str idp = Some i" and "todo_findUnique s i = Some t"
  shows "(\<exists>c m. put_todo s now idp b = (Error c m, s) \<and> (c = 400 \<or> c = 500)) \<or>
         (\<exists>r s'. put_validate s i b = Pass \<and>
                  put_transaction s now i b (changes t b) = Some (r, s') \<and>
                  todo_findUnique s' i = Some r \<and>
                  put_todo s now idp b =
                    (Updated r (tagIdsOf s' i) (map tid (include_dependencies s' i)) (changes t b), s'))"
proof (cases "put_validate s i b")
  case Pass
  show ?thesis
  proof (cases "put_transaction s now i b (changes t b)")
    case None
    with Pass assms show ?thesis by (simp add: put_todo_def)
  next
    case (Some p)
    obtain r s' where p: "p = (r, s')" by (cases p)
    from put_transaction_find[OF Some[unfolded p] assms(2)]
    have "todo_findUnique s' i = Some r" by blast
    with Pass Some p assms show ?thesis by (simp add: put_todo_def)
  qed
next
  case (Reject m)
  with assms show ?thesis by (simp add: put_todo_def)
next
  case Throw
  with assms show ?thesis by (simp add: put_todo_def)
qed

text \<open>
  C8: the update writes only the fields that the body has. For an existing todo and
  any body, whether the request succeeds or not, each of \<^verbatim>\<open>title\<close>, \<^verbatim>\<open>description\<close>,
  \<^verbatim>\<open>completed\<close>, \<^verbatim>\<open>priority\<close>, \<^verbatim>\<open>categoryId\<close> and \<^verbatim>\<open>userId\<close> that is absent from the
  body has its former value in the stored row afterwards.
\<close>

theorem update_leaves_absent_fields:
  assumes "parseInt_str idp = Some i" and "todo_findUnique s i = Some t"
  shows "\<exists>t'. todo_findUnique (snd (put_todo s now idp b)) i = Some t' \<and>
           (b_title b = None \<longrightarrow> title t' = title t) \<and>
           (b_description b = None \<longrightarrow> description t' = description t) \<and>
           (b_completed b = None \<longrightarrow> completed t' = completed t) \<and>
           (b_priority b = None \<longrightarrow> priority t' = priority t) \<and>
           (b_categoryId b = None \<longrightarrow> categoryId t' = categoryId t) \<and>
           (b_userId b = None \<longrightarrow> userId t' = userId t)"
proof -
  consider (err) c m where "put_todo s now idp b = (Error c m, s)"
    | (ok) r s' where "put_transaction s now i b (changes t b) = Some (r, s')"
        "put_todo s now idp b =
           (Updated r (tagIdsOf s' i) (map tid (include_dependencies s' i)) (changes t b), s')"
    using put_todo_cases[OF assms, of now b] by blast
  then show ?thesis
  proof cases
    case err
    then show ?thesis using assms(2) by simp
  next
    case ok
    from put_transaction_find[OF ok(1) assms(2)] obtain d where
      d: "update_data b = Some d" and r: "r = apply_data now d t"
      and f: "todo_findUnique s' i = Some r" by blast
    show ?thesis
      using update_data_absent[OF d] f ok(2) by (auto simp: r apply_data_def)
  qed
qed

theorem update_leaves_absent_fields_witness:
  "parseInt_str ''1'' = Some 1 \<and> todo_findUnique example_db 1 = Some (example_todo 1 ''A'') \<and>
   (\<exists>t'. todo_findUnique
            (snd (put_todo example_db 200 ''1'' (empty_body\<lparr>b_title := Some (JStr ''A2'')\<rparr>))) 1
            = Some t' \<and>
          title t' = ''A2'' \<and> description t' = None \<and> completed t' = False \<and>
          priority t' = HIGH \<and> categoryId t' = None \<and> userId t' = None)"
proof -
  let ?b = "empty_body\<lparr>b_title := Some (JStr ''A2'')\<rparr>"
  have h1: "parseInt_str ''1'' = Some 1" by code_simp
  have h2: "todo_findUnique example_db 1 = Some (example_todo 1 ''A'')" by code_simp
  have e: "map_option title (todo_findUnique (snd (put_todo example_db 200 ''1'' ?b)) 1) = Some ''A2''"
    by code_simp
  show ?thesis
    using h1 h2 e update_leaves_absent_fields[OF h1 h2, of 200 ?b]
    by (auto simp: empty_body_def example_todo_def)
qed

subsection \<open>The check for a reverse edge\<close>

lemma checks_Pass_iff: "checks cs = Pass \<longleftrightarrow> (\<forall>c \<in> set cs. c = Pass)"
  by (induction cs) (auto split: check.splits)

lemma dependent_id:
  assumes "todo_findUnique s B = Some tb" and "(B, A) \<in> set (todoDependencies s)"
  shows "B \<in> set (map tid (todosThatDependOn s A))"
proof -
  from assms(1) have "tb \<in> set (todos s)" and "tid tb = B"
    by (auto simp: todo_findUnique_def find_Some_iff in_set_conv_nth)
  with assms(2) show ?thesis by (force simp: todosThatDependOn_def)
qed

lemma check_circular_rejects:
  assumes "todo_findUnique s B = Some tb" and "(B, A) \<in> set (todoDependencies s)"
    and "d \<in> set ds" and "parseInt d = Some B"
  shows "check_circular s A ds =
           (if JNum A \<in> set ds then Reject ''A todo cannot depend on itself''
            else Reject ''Circular dependency detected'')"
proof -
  have "ds \<noteq> []" using assms(3) by auto
  moreover have "list_ex (\<lambda>depId. case parseInt depId of None \<Rightarrow> False
                    | Some d \<Rightarrow> d \<in> set (map tid (todosThatDependOn s A))) ds"
    unfolding list_ex_iff using assms(3,4) dependent_id[OF assms(1,2)] by force
  ultimately show ?thesis by (simp add: check_circular_def Let_def)
qed

text \<open>The dependency edges through the create transaction.\<close>

lemma connect_dependencies_edges:
  "connect_dependencies s i ds = Some s' \<Longrightarrow>
     set (todoDependencies s') \<subseteq> set (todoDependencies s) \<union> {e. fst e = i}"
  by (auto simp: connect_dependencies_def split: if_splits)

lemma tagsOnTodos_create_edges:
  "tagsOnTodos_create s now i g = Some s' \<Longrightarrow> todoDependencies s' = todoDependencies s"
  by (auto simp: tagsOnTodos_create_def split: if_splits)

lemma note_create_edges: "note_create s now i c = Some s' \<Longrightarrow> todoDependencies s' = todoDependencies s"
  by (auto simp: note_create_def split: if_splits)

lemma todoHistory_create_edges:
  "todoHistory_create s now i a d = Some s' \<Longrightarrow> todoDependencies s' = todoDependencies s"
  by (auto simp: todoHistory_create_def split: if_splits)

lemma post_transaction_edges:
  assumes "post_transaction s now b = Some (todo, s')"
  shows "set (todoDependencies s') \<subseteq> set (todoDependencies s) \<union> {e. fst e = tid todo}"
proof -
  from assms obtain ttl descr prio uid cid deps s1 s2 s3 where
    c: "todo_create s now ttl descr prio uid cid deps = Some (todo, s1)"
    and t: "forEach (\<lambda>tagId' s'. case parseInt tagId' of None \<Rightarrow> None
                                 | Some g \<Rightarrow> tagsOnTodos_create s' now (tid todo) g)
             (orEmpty (b_tagIds b)) s1 = Some s2"
    and n: "forEach (\<lambda>noteContent s'. case arg_String noteContent of None \<Rightarrow> None
                                 | Some c \<Rightarrow> note_create s' now (tid todo) c)
             (orEmpty (b_notes b)) s2 = Some s3"
    and h: "todoHistory_create s3 now (tid todo) ''CREATED'' ''Todo was created'' = Some s'"
    by (auto simp: post_transaction_def bind_eq_Some_conv)
  have 1: "set (todoDependencies s1) \<subseteq> set (todoDependencies s) \<union> {e. fst e = tid todo}"
    using c
    by (auto simp: todo_create_def Let_def split: if_splits option.splits
             dest!: connect_dependencies_edges)
  have "todoDependencies s2 = todoDependencies s1"
    by (rule forEach_preserves[OF _ t]) (auto split: option.splits dest: tagsOnTodos_create_edges)
  moreover have "todoDependencies s3 = todoDependencies s2"
    by (rule forEach_preserves[OF _ n]) (auto split: option.splits dest: note_create_edges)
  moreover have "todoDependencies s' = todoDependencies s3" using h by (rule todoHistory_create_edges)
  ultimately show ?thesis using 1 by simp
qed

lemma post_todos_cases:
  "snd (post_todos s now b) = s \<or>
   (\<exists>todo. post_transaction s now b = Some (todo, snd (post_todos s now b)))"
  by (auto simp: post_todos_def split: check.splits option.splits)

lemma post_todos_no_reverse_edge:
  assumes fk: "list_all (\<lambda>e. snd e \<in> set (map tid (todos s))) (todoDependencies s)"
    and "(B, A) \<in> set (todoDependencies s)" and "(A, B) \<notin> set (todoDependencies s)"
  shows "(A, B) \<notin> set (todoDependencies (snd (post_todos s now b)))"
proof -
  have A: "A \<in> set (map tid (todos s))"
    using fk assms(2) by (auto simp: list_all_iff)
  from post_todos_cases[of s now b] show ?thesis
  proof
    assume "snd (post_todos s now b) = s"
    with assms(3) show ?thesis by simp
  next
    assume "\<exists>todo. post_transaction s now b = Some (todo, snd (post_todos s now b))"
    then obtain todo where tx: "post_transaction s now b = Some (todo, snd (post_todos s now b))" ..
    from post_transaction_Some[OF tx] have "tid todo \<notin> set (map tid (todos s))" by simp
    with A have "A \<noteq> tid todo" by force
    with post_transaction_edges[OF tx] assms(3) show ?thesis by auto
  qed
qed

text \<open>
  C2, in the form that holds of the handlers: let B be a todo that depends on A. An update of A whose
  \<^verbatim>\<open>dependencies\<close> name B (as a number or as a string) is always answered with an error
  (400 or 500) and leaves the store as it was. The answer is 400 with
  \<^verbatim>\<open>Circular dependency detected\<close> when the request gets as far as that test, that
  is when the validations of the category, the user, the tags and the existence of the
  dependencies pass and the list does not hold the number A itself; otherwise it is
  the answer of the step that stopped the request. A create request cannot add the edge
  from A to B either: the new todo gets a key that no edge of the store refers to,
  provided the targets of the stored edges are todos (the foreign key of the join table).
\<close>

theorem reverse_edge_rejected:
  assumes "todo_findUnique s B = Some tb" and "(B, A) \<in> set (todoDependencies s)"
  shows "(parseInt_str idp = Some A \<and> todo_findUnique s A = Some ta \<and>
          d \<in> set (orEmpty (b_dependencies b)) \<and> parseInt d = Some B \<longrightarrow>
            (\<exists>c m. put_todo s now idp b = (Error c m, s) \<and> (c = 400 \<or> c = 500)) \<and>
            (checks [validate_category s (b_categoryId b), validate_user s (b_userId b),
                     validate_ids (tags s) (orEmpty (b_tagIds b)) ''Some tags not found'',
                     validate_ids (map tid (todos s)) (orEmpty (b_dependencies b))
                       ''Some dependencies not found''] = Pass \<and>
             JNum A \<notin> set (orEmpty (b_dependencies b)) \<longrightarrow>
               put_todo s now idp b = (Error 400 ''Circular dependency detected'', s))) \<and>
         (list_all (\<lambda>e. snd e \<in> set (map tid (todos s))) (todoDependencies s) \<and>
          (A, B) \<notin> set (todoDependencies s) \<longrightarrow>
            (A, B) \<notin> set (todoDependencies (snd (post_todos s now b'))))"
proof (intro conjI impI)
  assume h: "parseInt_str idp = Some A \<and> todo_findUnique s A = Some ta \<and>
          d \<in> set (orEmpty (b_dependencies b)) \<and> parseInt d = Some B"
  then have cc: "check_circular s A (orEmpty (b_dependencies b)) =
           (if JNum A \<in> set (orEmpty (b_dependencies b)) then Reject ''A todo cannot depend on itself''
            else Reject ''Circular dependency detected'')"
    using check_circular_rejects[OF assms] by blast
  then have "put_validate s A b \<noteq> Pass"
    by (auto simp: put_validate_def checks_Pass_iff simp del: checks.simps)
  with put_todo_cases[of idp A s ta now b] h
  show "\<exists>c m. put_todo s now idp b = (Error c m, s) \<and> (c = 400 \<or> c = 500)" by blast
  assume p: "checks [validate_category s (b_categoryId b), validate_user s (b_userId b),
                     validate_ids (tags s) (orEmpty (b_tagIds b)) ''Some tags not found'',
                     validate_ids (map tid (todos s)) (orEmpty (b_dependencies b))
                       ''Some dependencies not found''] = Pass \<and>
             JNum A \<notin> set (orEmpty (b_dependencies b))"
  then have "put_validate s A b = Reject ''Circular dependency detected''"
    using cc by (simp add: put_validate_def checks_Pass_iff del: checks.simps) simp
  with h show "put_todo s now idp b = (Error 400 ''Circular dependency detected'', s)"
    by (simp add: put_todo_def)
next
  assume "list_all (\<lambda>e. snd e \<in> set (map tid (todos s))) (todoDependencies s) \<and>
          (A, B) \<notin> set (todoDependencies s)"
  then show "(A, B) \<notin> set (todoDependencies (snd (post_todos s now b')))"
    using post_todos_no_reverse_edge[OF _ assms(2)] by blast
qed

theorem reverse_edge_rejected_witness:
  "todo_findUnique example_db 1 = Some (example_todo 1 ''A'') \<and>
   (1, 2) \<in> set (todoDependencies example_db) \<and>
   parseInt_str ''2'' = Some 2 \<and> todo_findUnique example_db 2 = Some (example_todo 2 ''B'') \<and>
   JStr ''1'' \<in> set (orEmpty (b_dependencies (empty_body\<lparr>b_dependencies := Some [JStr ''1'']\<rparr>))) \<and>
   parseInt (JStr ''1'') = Some 1 \<and>
   put_todo example_db 200 ''2'' (empty_body\<lparr>b_dependencies := Some [JStr ''1'']\<rparr>)
     = (Error 400 ''Circular dependency detected'', example_db) \<and>
   list_all (\<lambda>e. snd e \<in> set (map tid (todos example_db))) (todoDependencies example_db) \<and>
   (2, 1) \<notin> set (todoDependencies example_db) \<and>
   (2, 1) \<notin> set (todoDependencies (snd (post_todos example_db 200
       (empty_body\<lparr>b_title := Some (JStr ''D''), b_dependencies := Some [JNum 1, JNum 2]\<rparr>))))"
proof -
  let ?b = "empty_body\<lparr>b_dependencies := Some [JStr ''1'']\<rparr>"
  let ?b' = "empty_body\<lparr>b_title := Some (JStr ''D''), b_dependencies := Some [JNum 1, JNum 2]\<rparr>"
  have h1: "todo_findUnique example_db 1 = Some (example_todo 1 ''A'')" by code_simp
  have h2: "(1, 2) \<in> set (todoDependencies example_db)" by code_simp
  have h3: "parseInt_str ''2'' = Some 2" by code_simp
  have h4: "todo_findUnique example_db 2 = Some (example_todo 2 ''B'')" by code_simp
  have h5: "JStr ''1'' \<in> set (orEmpty (b_dependencies ?b))" by code_simp
  have h6: "parseInt (JStr ''1'') = Some 1" by code_simp
  have h7: "checks [validate_category example_db (b_categoryId ?b),
                    validate_user example_db (b_userId ?b),
                    validate_ids (tags example_db) (orEmpty (b_tagIds ?b)) ''Some tags not found'',
                    validate_ids (map tid (todos example_db)) (orEmpty (b_dependencies ?b))
                      ''Some dependencies not found''] = Pass"
    by code_simp
  have h8: "JNum 2 \<notin> set (orEmpty (b_dependencies ?b))" by code_simp
  have h9: "list_all (\<lambda>e. snd e \<in> set (map tid (todos example_db))) (todoDependencies example_db)"
    by code_simp
  have h10: "(2, 1) \<notin> set (todoDependencies example_db)" by code_simp
  show ?thesis
    using h1 h2 h3 h4 h5 h6 h7 h8 h9 h10
      reverse_edge_rejected[OF h1 h2, where idp = "''2''" and ta = "example_todo 2 ''B''"
        and d = "JStr ''1''" and b = ?b and now = 200 and b' = ?b']
    by blast
qed

subsection \<open>The tag-join table\<close>

text \<open>
  The unqualified form fails: an update of todo 2 that names todo 1, which depends on
  2, is answered with the message of the self-dependency test when the list
  also holds the number 2, and with 500 when the user of the body does not parse.
\<close>

theorem reverse_edge_counterexample:
  "todo_findUnique example_db 1 = Some (example_todo 1 ''A'') \<and>
   (1, 2) \<in> set (todoDependencies example_db) \<and>
   put_todo example_db 200 ''2'' (empty_body\<lparr>b_dependencies := Some [JNum 2, JNum 1]\<rparr>)
     = (Error 400 ''A todo cannot depend on itself'', example_db) \<and>
   put_todo example_db 200 ''2''
       (empty_body\<lparr>b_userId := Some (JStr ''abc''), b_dependencies := Some [JNum 1]\<rparr>)
     = (Error 500 ''Failed to update todo'', example_db)"
  by code_simp

















lemma put_todo_state:
  "snd (put_todo s now idp b) = s \<and> status (fst (put_todo s now idp b)) \<noteq> 200 \<or>
   (\<exists>i t r. parseInt_str idp = Some i \<and>
            put_transaction s now i b (changes t b) = Some (r, snd (put_todo s now idp b)))"
  by (auto simp: put_todo_def split: option.splits check.splits)
















section \<open>Properties of the list handler\<close>

lemma guarded_Some:
  "guarded conv p = Some r \<longleftrightarrow>
     (supplied p = None \<and> r = None) \<or> (\<exists>x y. supplied p = Some x \<and> conv x = Some y \<and> r = Some y)"
  by (auto simp: guarded_def split: option.splits)

lemma priority_of_string_name: "priority_of_string p = Some x \<longleftrightarrow> priority_name x = p"
  by (cases x) (auto simp: priority_of_string_def split: if_splits)

lemma priority_name_inj: "priority_name x = priority_name y \<longleftrightarrow> x = y"
  by (cases x; cases y) simp_all

lemma tag_member: "k \<in> set (tagIdsOf s i) \<longleftrightarrow> list_ex (\<lambda>r. todoId r = i \<and> tagId r = k) (tagsOnTodos s)"
  by (auto simp: tagIdsOf_def list_ex_iff)

lemma supplied_Some: "supplied p = Some x \<Longrightarrow> p = Some x"
  by (auto simp: supplied_def split: option.splits if_splits)

lemma build_where_fields:
  assumes "build_where q = Some w"
  shows "w_completed w = map_option (\<lambda>c. c = ''true'') (q_completed q)"
    and "w_OR w = supplied (q_search q)"
    and "guarded priority_of_string (q_priority q) = Some (w_priority w)"
    and "w_categoryId w = map_option parseInt_str (supplied (q_category q))"
    and "w_userId w = map_option parseInt_str (supplied (q_user q))"
    and "guarded parseInt_str (q_tag q) = Some (w_tags_some w)"
  using assms by (auto simp: build_where_def bind_eq_Some_conv)

text \<open>A pattern without the three special characters is matched as a substring.\<close>

lemma like_match_percent: "like_match ''%'' x"
  by (induction x) auto

lemma like_match_plain_prefix:
  "plain_text p \<Longrightarrow> like_match (p @ ''%'') x \<longleftrightarrow> take (length p) x = p"
proof (induction p arbitrary: x)
  case Nil
  then show ?case by (simp add: like_match_percent)
next
  case (Cons a p)
  then have a: "a \<noteq> CHR ''%''" "a \<noteq> CHR ''_''" "a \<noteq> CHR 0x5C" and p: "plain_text p"
    by (auto simp: plain_text_def)
  show ?case
  proof (cases x)
    case Nil
    with a show ?thesis by simp
  next
    case (Cons c cs)
    with a Cons.IH[OF p, of cs] show ?thesis by auto
  qed
qed

lemma like_match_plain:
  "plain_text p \<Longrightarrow> like_match (''%'' @ p @ ''%'') x \<longleftrightarrow> occurs_in p x"
proof (induction x)
  case Nil
  then show ?case using like_match_plain_prefix[of p "[]"] by auto
next
  case (Cons c cs)
  then show ?case using like_match_plain_prefix[of p "c # cs"] by auto
qed

lemma toLower_special:
  "toLower c = CHR ''%'' \<Longrightarrow> c = CHR ''%''"
  "toLower c = CHR ''_'' \<Longrightarrow> c = CHR ''_''"
  "toLower c = CHR 0x5C \<Longrightarrow> c = CHR 0x5C"
  by (auto simp: toLower_def split: option.splits if_splits)

lemma plain_text_toLower: "plain_text x \<Longrightarrow> plain_text (map toLower x)"
  by (auto simp: plain_text_def list_all_iff dest: toLower_special)

lemma toLower_percent: "toLower CHR ''%'' = CHR ''%''"
  by (simp add: toLower_def)

lemma contains_insensitive_plain:
  "plain_text x \<Longrightarrow> contains_insensitive col x = has_substring col x"
  using like_match_plain[OF plain_text_toLower, of x "map toLower col"]
  by (simp add: contains_insensitive_def has_substring_def toLower_percent)

text \<open>
  On a plain query the \<^verbatim>\<open>where\<close> object that the handler builds means what the
  query string asks for.
\<close>

lemma build_where_meaning:
  assumes "build_where q = Some w" and "plain_query q"
  shows "todo_matches s w t = satisfies_filters s q t"
proof -
  note f = build_where_fields[OF assms(1)]
  have 1: "(case w_completed w of None \<Rightarrow> True | Some c \<Rightarrow> completed t = c) =
           (case q_completed q of None \<Rightarrow> True | Some c \<Rightarrow> completed t = (c = ''true''))"
    by (simp add: f(1) split: option.splits)
  have 2: "(case w_OR w of None \<Rightarrow> True
            | Some x \<Rightarrow> contains_insensitive (title t) x \<or>
                (case description t of None \<Rightarrow> False | Some d \<Rightarrow> contains_insensitive d x)) =
           (case supplied (q_search q) of None \<Rightarrow> True
            | Some x \<Rightarrow> list_ex (\<lambda>col. has_substring col x)
                (title t # (case description t of None \<Rightarrow> [] | Some d \<Rightarrow> [d])))"
  proof (cases "supplied (q_search q)")
    case None
    then show ?thesis by (simp add: f(2))
  next
    case (Some x)
    from supplied_Some[OF Some] assms(2) have "plain_text x" by (simp add: plain_query_def)
    then show ?thesis
      by (simp add: f(2) Some contains_insensitive_plain split: option.splits)
  qed
  have 3: "(case w_priority w of None \<Rightarrow> True | Some p \<Rightarrow> priority t = p) =
           (case supplied (q_priority q) of None \<Rightarrow> True | Some p \<Rightarrow> priority_name (priority t) = p)"
    using f(3) by (auto simp: guarded_Some priority_of_string_name priority_name_inj)
  have 4: "(case w_categoryId w of None \<Rightarrow> True | Some c \<Rightarrow> categoryId t = c) =
           (case supplied (q_category q) of None \<Rightarrow> True
            | Some c \<Rightarrow> (case parseInt_str c of None \<Rightarrow> False | Some k \<Rightarrow> categoryId t = Some k))"
    using assms(2)
    by (auto simp: f(4) plain_query_def numeric_if_supplied_def split: option.splits)
  have 5: "(case w_userId w of None \<Rightarrow> True | Some u \<Rightarrow> userId t = u) =
           (case supplied (q_user q) of None \<Rightarrow> True
            | Some u \<Rightarrow> (case parseInt_str u of None \<Rightarrow> False | Some k \<Rightarrow> userId t = Some k))"
    using assms(2)
    by (auto simp: f(5) plain_query_def numeric_if_supplied_def split: option.splits)
  have 6: "(case w_tags_some w of None \<Rightarrow> True | Some g \<Rightarrow> g \<in> set (tagIdsOf s (tid t))) =
           (case supplied (q_tag q) of None \<Rightarrow> True
            | Some g \<Rightarrow> (case parseInt_str g of None \<Rightarrow> False
                 | Some k \<Rightarrow> list_ex (\<lambda>r. todoId r = tid t \<and> tagId r = k) (tagsOnTodos s)))"
    using f(6) by (auto simp: guarded_Some tag_member)
  show ?thesis
    unfolding todo_matches_def satisfies_filters_def 1 2 3 4 5 6 by blast
qed

lemma todo_findMany_subset:
  assumes "todo_findMany s w sk tk = Some xs"
  shows "set xs \<subseteq> set (filter (todo_matches s w) (todos s))"
proof -
  let ?rows = "sort_key (\<lambda>t. - createdAt t) (filter (todo_matches s w) (todos s))"
  have "set xs \<subseteq> set ?rows"
    using assms
    by (auto simp: todo_findMany_def Let_def split: if_splits dest!: in_set_takeD in_set_dropD)
  then show ?thesis by simp
qed

text \<open>What the handler does on every query string that it answers with a list.\<close>

lemma get_todos_Listed:
  assumes "get_todos s q = Listed data cnt page lim"
  shows "\<exists>w. build_where q = Some w \<and> set data \<subseteq> set (filter (todo_matches s w) (todos s)) \<and>
             cnt = length (filter (todo_matches s w) (todos s))"
proof -
  from assms obtain w sk where w: "build_where q = Some w"
    and m: "todo_findMany s w sk lim = Some data"
    and c: "cnt = todo_count s (todo_matches s w)"
    by (auto simp: get_todos_def Let_def split: option.splits)
  from todo_findMany_subset[OF m] w c show ?thesis by (auto simp: todo_count_def)
qed

text \<open>
  C7, in the form that holds of the handler: for a list request whose category and user, when supplied, are
  numbers and whose search text has no \<^verbatim>\<open>%\<close>, \<^verbatim>\<open>_\<close> or backslash, and which is
  answered with a list, every todo of \<^verbatim>\<open>data\<close> is a stored todo that meets all the
  supplied filters (the conjunction of \<open>satisfies_filters\<close>, in which the text search
  holds when the text occurs in the title or in the description), and
  \<^verbatim>\<open>pagination.total\<close> is the number of stored todos that meet them. In the example the
  request \<^verbatim>\<open>completed=true&priority=HIGH&search=milk\<close> returns the todo that has the
  word in its title and the one that has it in its description, with \<^verbatim>\<open>total = 2\<close>,
  from a store of four.
\<close>

theorem list_applies_all_filters:
  assumes "get_todos s q = Listed data cnt page lim" and "plain_query q"
  shows "(\<forall>t \<in> set data. t \<in> set (todos s) \<and> satisfies_filters s q t) \<and>
         cnt = length (filter (satisfies_filters s q) (todos s))"
proof -
  from get_todos_Listed[OF assms(1)] obtain w where w: "build_where q = Some w"
    and d: "set data \<subseteq> set (filter (todo_matches s w) (todos s))"
    and c: "cnt = length (filter (todo_matches s w) (todos s))" by blast
  have eq: "todo_matches s w = satisfies_filters s q"
    using build_where_meaning[OF w assms(2)] by (intro ext)
  from d c show ?thesis by (auto simp: eq)
qed

theorem list_applies_all_filters_witness:
  "get_todos list_db example_query
     = Listed [todos list_db ! 1, todos list_db ! 0] 2 1 10 \<and>
   plain_query example_query \<and>
   satisfies_filters list_db example_query (todos list_db ! 1) \<and>
   satisfies_filters list_db example_query (todos list_db ! 0) \<and>
   title (todos list_db ! 0) = ''Buy milk'' \<and> description (todos list_db ! 0) = None \<and>
   title (todos list_db ! 1) = ''Call bank'' \<and>
   description (todos list_db ! 1) = Some ''about the MILK loan'' \<and>
   2 = length (filter (satisfies_filters list_db example_query) (todos list_db)) \<and>
   length (todos list_db) = 4"
proof -
  have h: "get_todos list_db example_query = Listed [todos list_db ! 1, todos list_db ! 0] 2 1 10"
    by code_simp
  have p: "plain_query example_query" by code_simp
  have l: "length (todos list_db) = 4" by code_simp
  have t: "title (todos list_db ! 0) = ''Buy milk'' \<and> description (todos list_db ! 0) = None \<and>
           title (todos list_db ! 1) = ''Call bank'' \<and>
           description (todos list_db ! 1) = Some ''about the MILK loan''"
    by code_simp
  show ?thesis using h p l t list_applies_all_filters[OF h p] by simp
qed

text \<open>
  The unqualified form fails on two requests. With \<^verbatim>\<open>category=abc\<close> the
  condition on \<^verbatim>\<open>categoryId\<close> is \<^verbatim>\<open>NaN\<close>, and the answer lists the todo that has no
  category. With \<^verbatim>\<open>search=_\<close> the text is a pattern for any one character, and the
  answer lists all four todos, none of which has an underscore in its title or
  description.
\<close>

theorem list_filters_counterexample:
  "get_todos list_db (empty_query\<lparr>q_category := Some ''abc''\<rparr>)
     = Listed [todos list_db ! 0] 1 1 10 \<and>
   categoryId (todos list_db ! 0) = None \<and>
   \<not> satisfies_filters list_db (empty_query\<lparr>q_category := Some ''abc''\<rparr>) (todos list_db ! 0) \<and>
   get_todos list_db (empty_query\<lparr>q_search := Some ''_''\<rparr>)
     = Listed (rev (todos list_db)) 4 1 10 \<and>
   title (todos list_db ! 0) = ''Buy milk'' \<and> description (todos list_db ! 0) = None \<and>
   \<not> satisfies_filters list_db (empty_query\<lparr>q_search := Some ''_''\<rparr>) (todos list_db ! 0)"
  by code_simp

section \<open>Invariants of the store\<close>

text \<open>
  Two of the statements above assume a property of the store that the database
  guarantees. Both are invariants of the four writing handlers.

  The first: the sequence of the history table is ahead of every key in the table.
\<close>

lemma todo_update_hist:
  "todo_update s i f = Some (r, s') \<Longrightarrow>
     todoHistory s' = todoHistory s \<and> todo_history_id_seq s' = todo_history_id_seq s"
  by (auto simp: todo_update_def split: option.splits)

lemma tagsOnTodos_create_hist:
  "tagsOnTodos_create s now i g = Some s' \<Longrightarrow>
     todoHistory s' = todoHistory s \<and> todo_history_id_seq s' = todo_history_id_seq s"
  by (auto simp: tagsOnTodos_create_def split: if_splits)

lemma note_create_hist:
  "note_create s now i c = Some s' \<Longrightarrow>
     todoHistory s' = todoHistory s \<and> todo_history_id_seq s' = todo_history_id_seq s"
  by (auto simp: note_create_def split: if_splits)

lemma connect_dependencies_hist:
  "connect_dependencies s i ds = Some s' \<Longrightarrow>
     todoHistory s' = todoHistory s \<and> todo_history_id_seq s' = todo_history_id_seq s"
  by (auto simp: connect_dependencies_def split: if_splits)

lemma todoHistory_create_ahead:
  assumes "todoHistory_create s now i a d = Some s'"
    and "list_all (\<lambda>h. hist_id h < todo_history_id_seq s) (todoHistory s)"
  shows "list_all (\<lambda>h. hist_id h < todo_history_id_seq s') (todoHistory s')"
  using assms by (fastforce simp: todoHistory_create_def list_all_iff split: if_splits)

lemma forEach_preserves2:
  assumes "\<And>x s s'. f x s = Some s' \<Longrightarrow> g s' = g s \<and> h s' = h s"
  shows "forEach f xs s = Some s' \<Longrightarrow> g s' = g s \<and> h s' = h s"
proof (induction xs arbitrary: s)
  case Nil
  then show ?case by simp
next
  case (Cons x xs)
  from Cons.prems obtain s1 where 1: "f x s = Some s1" and 2: "forEach f xs s1 = Some s'"
    by (auto split: option.splits)
  from assms[OF 1] Cons.IH[OF 2] show ?case by simp
qed

lemma put_transaction_ahead:
  assumes "put_transaction s now i b ch = Some (r, s')"
    and "list_all (\<lambda>h. hist_id h < todo_history_id_seq s) (todoHistory s)"
  shows "list_all (\<lambda>h. hist_id h < todo_history_id_seq s') (todoHistory s')"
proof -
  from assms(1) obtain d s1 s2 s3 s4 s5 s6 s7 where
    1: "todo_update_data s now i d = Some (r, s1)"
    and 2: "put_remove_tags s1 i (orEmpty (b_removeTags b)) = Some s2"
    and 3: "put_add_tags s2 now i (orEmpty (b_tagIds b)) = Some s3"
    and 4: "put_add_notes s3 now i (orEmpty (b_notes b)) = Some s4"
    and 5: "put_remove_notes s4 (orEmpty (b_removeNotes b)) = Some s5"
    and 6: "put_add_dependencies s5 i (orEmpty (b_dependencies b)) = Some s6"
    and 7: "put_remove_dependencies s6 i (orEmpty (b_removeDependencies b)) = Some s7"
    and 8: "todoHistory_create s7 now i ''UPDATED'' (''Updated fields: '' @ join '', '' ch) = Some s'"
    by (rule put_transaction_steps)
  have a: "todoHistory s1 = todoHistory s \<and> todo_history_id_seq s1 = todo_history_id_seq s"
    using 1 by (auto simp: todo_update_data_def split: if_splits dest: todo_update_hist)
  have b: "todoHistory s2 = todoHistory s1 \<and> todo_history_id_seq s2 = todo_history_id_seq s1"
    using 2 by (auto simp: put_remove_tags_def tagsOnTodos_deleteMany_def split: if_splits)
  have c: "todoHistory s3 = todoHistory s2 \<and> todo_history_id_seq s3 = todo_history_id_seq s2"
  proof (cases "orEmpty (b_tagIds b) = []")
    case True
    with 3 show ?thesis by (simp add: put_add_tags_def)
  next
    case False
    with 3 have l: "forEach (\<lambda>tagId' s'. case parseInt tagId' of
                                    None \<Rightarrow> None
                                  | Some parsedId \<Rightarrow>
                                      if parsedId \<in> set (tagIdsOf s2 i) then Some s'
                                      else tagsOnTodos_create s' now i parsedId)
              (orEmpty (b_tagIds b)) s2 = Some s3"
      by (simp add: put_add_tags_def Let_def)
    show ?thesis
      by (rule forEach_preserves2[OF _ l])
         (auto split: option.splits if_splits dest: tagsOnTodos_create_hist)
  qed
  have d: "todoHistory s4 = todoHistory s3 \<and> todo_history_id_seq s4 = todo_history_id_seq s3"
  proof (cases "orEmpty (b_notes b) = []")
    case True
    with 4 show ?thesis by (simp add: put_add_notes_def)
  next
    case False
    with 4 have l: "forEach (\<lambda>noteContent s'. case arg_String noteContent of
                                     None \<Rightarrow> None
                                   | Some c \<Rightarrow> note_create s' now i c)
              (orEmpty (b_notes b)) s3 = Some s4"
      by (simp add: put_add_notes_def)
    show ?thesis
      by (rule forEach_preserves2[OF _ l]) (auto split: option.splits dest: note_create_hist)
  qed
  have e: "todoHistory s5 = todoHistory s4 \<and> todo_history_id_seq s5 = todo_history_id_seq s4"
    using 5 by (auto simp: put_remove_notes_def note_deleteMany_def split: if_splits)
  have f: "todoHistory s6 = todoHistory s5 \<and> todo_history_id_seq s6 = todo_history_id_seq s5"
    using 6 by (auto simp: put_add_dependencies_def bind_eq_Some_conv split: if_splits
                     dest!: todo_update_hist connect_dependencies_hist)
  have g: "todoHistory s7 = todoHistory s6 \<and> todo_history_id_seq s7 = todo_history_id_seq s6"
    using 7 by (auto simp: put_remove_dependencies_def bind_eq_Some_conv disconnect_dependencies_def
                     split: if_splits dest!: todo_update_hist)
  have "list_all (\<lambda>h. hist_id h < todo_history_id_seq s7) (todoHistory s7)"
    using assms(2) a b c d e f g by simp
  then show ?thesis by (rule todoHistory_create_ahead[OF 8])
qed

lemma post_transaction_ahead:
  assumes "post_transaction s now b = Some (todo, s')"
    and "list_all (\<lambda>h. hist_id h < todo_history_id_seq s) (todoHistory s)"
  shows "list_all (\<lambda>h. hist_id h < todo_history_id_seq s') (todoHistory s')"
proof -
  from assms obtain ttl descr prio uid cid deps s1 s2 s3 where
    c: "todo_create s now ttl descr prio uid cid deps = Some (todo, s1)"
    and t: "forEach (\<lambda>tagId' s'. case parseInt tagId' of None \<Rightarrow> None
                                 | Some g \<Rightarrow> tagsOnTodos_create s' now (tid todo) g)
             (orEmpty (b_tagIds b)) s1 = Some s2"
    and n: "forEach (\<lambda>noteContent s'. case arg_String noteContent of None \<Rightarrow> None
                                 | Some c \<Rightarrow> note_create s' now (tid todo) c)
             (orEmpty (b_notes b)) s2 = Some s3"
    and h: "todoHistory_create s3 now (tid todo) ''CREATED'' ''Todo was created'' = Some s'"
    by (auto simp: post_transaction_def bind_eq_Some_conv)
  have 1: "todoHistory s1 = todoHistory s \<and> todo_history_id_seq s1 = todo_history_id_seq s"
    using c
    by (auto simp: todo_create_def Let_def split: if_splits option.splits
             dest!: connect_dependencies_hist)
  have 2: "todoHistory s2 = todoHistory s1 \<and> todo_history_id_seq s2 = todo_history_id_seq s1"
    by (rule forEach_preserves2[OF _ t]) (auto split: option.splits dest: tagsOnTodos_create_hist)
  have 3: "todoHistory s3 = todoHistory s2 \<and> todo_history_id_seq s3 = todo_history_id_seq s2"
    by (rule forEach_preserves2[OF _ n]) (auto split: option.splits dest: note_create_hist)
  have "list_all (\<lambda>h. hist_id h < todo_history_id_seq s3) (todoHistory s3)"
    using assms(2) 1 2 3 by simp
  then show ?thesis by (rule todoHistory_create_ahead[OF h])
qed

lemma history_sequence_stays_ahead:
  assumes "list_all (\<lambda>h. hist_id h < todo_history_id_seq s) (todoHistory s)"
  shows "list_all (\<lambda>h. hist_id h < todo_history_id_seq (snd (post_todos s now b)))
           (todoHistory (snd (post_todos s now b)))"
    and "list_all (\<lambda>h. hist_id h < todo_history_id_seq (snd (put_todo s now idp b)))
           (todoHistory (snd (put_todo s now idp b)))"
    and "list_all (\<lambda>h. hist_id h < todo_history_id_seq (snd (delete_todo s idp)))
           (todoHistory (snd (delete_todo s idp)))"
    and "list_all (\<lambda>h. hist_id h < todo_history_id_seq (snd (patch_toggle s now idp)))
           (todoHistory (snd (patch_toggle s now idp)))"
proof -
  show "list_all (\<lambda>h. hist_id h < todo_history_id_seq (snd (post_todos s now b)))
           (todoHistory (snd (post_todos s now b)))"
    using post_todos_cases[of s now b] assms by (auto dest: post_transaction_ahead)
  show "list_all (\<lambda>h. hist_id h < todo_history_id_seq (snd (put_todo s now idp b)))
           (todoHistory (snd (put_todo s now idp b)))"
    using put_todo_state[of s now idp b] assms by (auto dest: put_transaction_ahead)
  show "list_all (\<lambda>h. hist_id h < todo_history_id_seq (snd (delete_todo s idp)))
           (todoHistory (snd (delete_todo s idp)))"
    using assms
    by (auto simp: delete_todo_def todo_delete_def Let_def list_all_iff split: option.splits)
  show "list_all (\<lambda>h. hist_id h < todo_history_id_seq (snd (patch_toggle s now idp)))
           (todoHistory (snd (patch_toggle s now idp)))"
    using assms
    by (auto simp: patch_toggle_def toggle_transaction_def Let_def
             split: option.splits dest!: todo_update_hist dest: todoHistory_create_ahead)
qed

text \<open>The second: the target of every dependency edge is a stored todo.\<close>

lemma find_not_None_tid: "todo_findUnique s d \<noteq> None \<Longrightarrow> d \<in> set (map tid (todos s))"
  by (auto simp: todo_findUnique_def find_None_iff)

lemma todo_update_targets:
  assumes "todo_update s i f = Some (r, s')" and "\<And>x. tid (f x) = tid x"
    and "list_all (\<lambda>e. snd e \<in> set (map tid (todos s))) (todoDependencies s)"
  shows "list_all (\<lambda>e. snd e \<in> set (map tid (todos s'))) (todoDependencies s')"
proof -
  from assms(1) have t: "todos s' = map (\<lambda>r. if tid r = i then f r else r) (todos s)"
    and e: "todoDependencies s' = todoDependencies s"
    by (auto simp: todo_update_def split: option.splits)
  have "map tid (todos s') = map tid (todos s)"
    unfolding t using assms(2) by (induction "todos s") auto
  with assms(3) e show ?thesis by simp
qed

lemma connect_dependencies_targets:
  assumes "connect_dependencies s i ds = Some s'"
    and "list_all (\<lambda>e. snd e \<in> set (map tid (todos s))) (todoDependencies s)"
  shows "list_all (\<lambda>e. snd e \<in> set (map tid (todos s'))) (todoDependencies s')"
proof -
  from assms(1) have ex: "list_all (\<lambda>d. todo_findUnique s d \<noteq> None) ds"
    and s': "s' = s\<lparr>todoDependencies := todoDependencies s @
                    remdups (filter (\<lambda>e. e \<notin> set (todoDependencies s)) (map (Pair i) ds))\<rparr>"
    by (auto simp: connect_dependencies_def split: if_splits)
  have "\<forall>d \<in> set ds. d \<in> set (map tid (todos s))"
    using ex find_not_None_tid by (auto simp: list_all_iff)
  with assms(2) show ?thesis by (auto simp: s' list_all_iff)
qed

lemma forEach_invariant:
  assumes "\<And>x s s'. f x s = Some s' \<Longrightarrow> P s \<Longrightarrow> P s'"
  shows "forEach f xs s = Some s' \<Longrightarrow> P s \<Longrightarrow> P s'"
proof (induction xs arbitrary: s)
  case Nil
  then show ?case by simp
next
  case (Cons x xs)
  from Cons.prems(1) obtain s1 where 1: "f x s = Some s1" and 2: "forEach f xs s1 = Some s'"
    by (auto split: option.splits)
  from Cons.IH[OF 2 assms[OF 1 Cons.prems(2)]] show ?case .
qed

lemma put_transaction_targets:
  assumes "put_transaction s now i b ch = Some (r, s')"
    and "list_all (\<lambda>e. snd e \<in> set (map tid (todos s))) (todoDependencies s)"
  shows "list_all (\<lambda>e. snd e \<in> set (map tid (todos s'))) (todoDependencies s')"
proof -
  let ?F = "\<lambda>s. list_all (\<lambda>e. snd e \<in> set (map tid (todos s))) (todoDependencies s)"
  from assms(1) obtain d s1 s2 s3 s4 s5 s6 s7 where
    1: "todo_update_data s now i d = Some (r, s1)"
    and 2: "put_remove_tags s1 i (orEmpty (b_removeTags b)) = Some s2"
    and 3: "put_add_tags s2 now i (orEmpty (b_tagIds b)) = Some s3"
    and 4: "put_add_notes s3 now i (orEmpty (b_notes b)) = Some s4"
    and 5: "put_remove_notes s4 (orEmpty (b_removeNotes b)) = Some s5"
    and 6: "put_add_dependencies s5 i (orEmpty (b_dependencies b)) = Some s6"
    and 7: "put_remove_dependencies s6 i (orEmpty (b_removeDependencies b)) = Some s7"
    and 8: "todoHistory_create s7 now i ''UPDATED'' (''Updated fields: '' @ join '', '' ch) = Some s'"
    by (rule put_transaction_steps)
  have "todo_update s i (apply_data now d) = Some (r, s1)"
    using 1 by (auto simp: todo_update_data_def split: if_splits)
  from todo_update_targets[OF this apply_data_tid assms(2)] have f1: "?F s1" .
  have f2: "?F s2"
    using 2 f1 by (auto simp: put_remove_tags_def tagsOnTodos_deleteMany_def split: if_splits)
  have f3: "?F s3"
  proof (cases "orEmpty (b_tagIds b) = []")
    case True
    with 3 f2 show ?thesis by (simp add: put_add_tags_def)
  next
    case False
    with 3 have l: "forEach (\<lambda>tagId' s'. case parseInt tagId' of
                                    None \<Rightarrow> None
                                  | Some parsedId \<Rightarrow>
                                      if parsedId \<in> set (tagIdsOf s2 i) then Some s'
                                      else tagsOnTodos_create s' now i parsedId)
              (orEmpty (b_tagIds b)) s2 = Some s3"
      by (simp add: put_add_tags_def Let_def)
    show ?thesis
      by (rule forEach_invariant[where P = ?F, OF _ l f2])
         (auto split: option.splits if_splits simp: tagsOnTodos_create_def)
  qed
  have f4: "?F s4"
  proof (cases "orEmpty (b_notes b) = []")
    case True
    with 4 f3 show ?thesis by (simp add: put_add_notes_def)
  next
    case False
    with 4 have l: "forEach (\<lambda>noteContent s'. case arg_String noteContent of
                                     None \<Rightarrow> None
                                   | Some c \<Rightarrow> note_create s' now i c)
              (orEmpty (b_notes b)) s3 = Some s4"
      by (simp add: put_add_notes_def)
    show ?thesis
      by (rule forEach_invariant[where P = ?F, OF _ l f3])
         (auto split: option.splits if_splits simp: note_create_def)
  qed
  have f5: "?F s5"
    using 5 f4 by (auto simp: put_remove_notes_def note_deleteMany_def split: if_splits)
  have f6: "?F s6"
  proof (cases "orEmpty (b_dependencies b) = []")
    case True
    with 6 f5 show ?thesis by (simp add: put_add_dependencies_def)
  next
    case False
    with 6 obtain ns r1 s5' where u: "todo_update s5 i (\<lambda>t. t) = Some (r1, s5')"
      and c: "connect_dependencies s5' i ns = Some s6"
      by (auto simp: put_add_dependencies_def bind_eq_Some_conv)
    from todo_update_targets[OF u _ f5] have "?F s5'" by simp
    then show ?thesis by (rule connect_dependencies_targets[OF c])
  qed
  have f7: "?F s7"
  proof (cases "orEmpty (b_removeDependencies b) = []")
    case True
    with 7 f6 show ?thesis by (simp add: put_remove_dependencies_def)
  next
    case False
    with 7 obtain ns r1 s6' where u: "todo_update s6 i (\<lambda>t. t) = Some (r1, s6')"
      and c: "s7 = disconnect_dependencies s6' i ns"
      by (auto simp: put_remove_dependencies_def bind_eq_Some_conv)
    from todo_update_targets[OF u _ f6] have "?F s6'" by simp
    then show ?thesis by (auto simp: c disconnect_dependencies_def list_all_iff)
  qed
  show ?thesis
    using 8 f7 by (auto simp: todoHistory_create_def split: if_splits)
qed

lemma post_transaction_targets:
  assumes "post_transaction s now b = Some (todo, s')"
    and "list_all (\<lambda>e. snd e \<in> set (map tid (todos s))) (todoDependencies s)"
  shows "list_all (\<lambda>e. snd e \<in> set (map tid (todos s'))) (todoDependencies s')"
proof -
  let ?F = "\<lambda>s. list_all (\<lambda>e. snd e \<in> set (map tid (todos s))) (todoDependencies s)"
  from assms obtain ttl descr prio uid cid deps s1 s2 s3 where
    c: "todo_create s now ttl descr prio uid cid deps = Some (todo, s1)"
    and t: "forEach (\<lambda>tagId' s'. case parseInt tagId' of None \<Rightarrow> None
                                 | Some g \<Rightarrow> tagsOnTodos_create s' now (tid todo) g)
             (orEmpty (b_tagIds b)) s1 = Some s2"
    and n: "forEach (\<lambda>noteContent s'. case arg_String noteContent of None \<Rightarrow> None
                                 | Some c \<Rightarrow> note_create s' now (tid todo) c)
             (orEmpty (b_notes b)) s2 = Some s3"
    and h: "todoHistory_create s3 now (tid todo) ''CREATED'' ''Todo was created'' = Some s'"
    by (auto simp: post_transaction_def bind_eq_Some_conv)
  from c obtain s0 where s0: "s0 = s\<lparr>todos := todos s @ [todo], todos_id_seq := todos_id_seq s + 1\<rparr>"
    and cn: "connect_dependencies s0 (tid todo) deps = Some s1"
    by (auto simp: todo_create_def Let_def split: if_splits option.splits)
  have "?F s0" using assms(2) by (auto simp: s0 list_all_iff)
  then have f1: "?F s1" by (rule connect_dependencies_targets[OF cn])
  have f2: "?F s2"
    by (rule forEach_invariant[where P = ?F, OF _ t f1])
       (auto split: option.splits if_splits simp: tagsOnTodos_create_def)
  have f3: "?F s3"
    by (rule forEach_invariant[where P = ?F, OF _ n f2])
       (auto split: option.splits if_splits simp: note_create_def)
  show ?thesis
    using h f3 by (auto simp: todoHistory_create_def split: if_splits)
qed

lemma patch_toggle_state:
  "snd (patch_toggle s now idp) = s \<or>
   (\<exists>i c r s1 a d.
      todo_update s i (\<lambda>x. x\<lparr>completed := c, updatedAt := now\<rparr>) = Some (r, s1) \<and>
      todoHistory_create s1 now i a d = Some (snd (patch_toggle s now idp)))"
  by (auto simp: patch_toggle_def toggle_transaction_def Let_def split: option.splits)

lemma dependency_targets_stay_todos:
  assumes "list_all (\<lambda>e. snd e \<in> set (map tid (todos s))) (todoDependencies s)"
  shows "list_all (\<lambda>e. snd e \<in> set (map tid (todos (snd (post_todos s now b)))))
           (todoDependencies (snd (post_todos s now b)))"
    and "list_all (\<lambda>e. snd e \<in> set (map tid (todos (snd (put_todo s now idp b)))))
           (todoDependencies (snd (put_todo s now idp b)))"
    and "list_all (\<lambda>e. snd e \<in> set (map tid (todos (snd (delete_todo s idp)))))
           (todoDependencies (snd (delete_todo s idp)))"
    and "list_all (\<lambda>e. snd e \<in> set (map tid (todos (snd (patch_toggle s now idp)))))
           (todoDependencies (snd (patch_toggle s now idp)))"
proof -
  show "list_all (\<lambda>e. snd e \<in> set (map tid (todos (snd (post_todos s now b)))))
           (todoDependencies (snd (post_todos s now b)))"
    using post_todos_cases[of s now b] assms by (auto dest: post_transaction_targets)
  show "list_all (\<lambda>e. snd e \<in> set (map tid (todos (snd (put_todo s now idp b)))))
           (todoDependencies (snd (put_todo s now idp b)))"
    using put_todo_state[of s now idp b] assms by (auto dest: put_transaction_targets)
  show "list_all (\<lambda>e. snd e \<in> set (map tid (todos (snd (delete_todo s idp)))))
           (todoDependencies (snd (delete_todo s idp)))"
    using assms
    by (auto simp: delete_todo_def todo_delete_def Let_def list_all_iff split: option.splits)
  show "list_all (\<lambda>e. snd e \<in> set (map tid (todos (snd (patch_toggle s now idp)))))
           (todoDependencies (snd (patch_toggle s now idp)))"
  proof -
    from patch_toggle_state[of s now idp] show ?thesis
    proof
      assume "snd (patch_toggle s now idp) = s"
      with assms show ?thesis by simp
    next
      assume "\<exists>i c r s1 a d.
                todo_update s i (\<lambda>x. x\<lparr>completed := c, updatedAt := now\<rparr>) = Some (r, s1) \<and>
                todoHistory_create s1 now i a d = Some (snd (patch_toggle s now idp))"
      then obtain i c r s1 a d where
        u: "todo_update s i (\<lambda>x. x\<lparr>completed := c, updatedAt := now\<rparr>) = Some (r, s1)"
        and h: "todoHistory_create s1 now i a d = Some (snd (patch_toggle s now idp))" by blast
      from todo_update_targets[OF u _ assms]
      have "list_all (\<lambda>e. snd e \<in> set (map tid (todos s1))) (todoDependencies s1)" by simp
      then show ?thesis
        using todoHistory_create_todos[OF h] todoHistory_create_edges[OF h] by simp
    qed
  qed
qed

end
